theory Spec2Isabelle
  imports Main "HOL-Library.Word"
begin

section \<open>The logger of \<open>src/include/logger.h\<close>: data model\<close>

text \<open>
  The class \<open>utils::Logger\<close> keeps all of its state in static members. The embedding
  collects them in one record, \<open>logger_state\<close>, together with the parts of the outside
  world the code acts on: the file system, the two standard streams and the buffer of
  the null stream. Every member function becomes a function from a state to an outcome
  and a state. Private members lose their leading underscore (\<open>_writeOut\<close> is \<open>writeOut\<close>,
  \<open>_sinks\<close> is \<open>sinks\<close>), since an Isabelle name cannot start with one; \<open>_write\<close> is
  \<open>Logger_write\<close>, the plain word being a keyword.
\<close>

datatype LogLevel = DEBUG | INFO | ERROR | PROFILING | NONE

text \<open>\<open>Logger::Policy\<close>; its \<open>NONE\<close> is written \<open>P_NONE\<close>, the name being taken by \<open>LogLevel\<close>.\<close>

datatype Policy = P_NONE | MAX_SIZE | DAILY

text \<open>The exceptions the code throws itself or lets through from \<open>std::filesystem\<close>.\<close>

datatype exn = runtime_error string | filesystem_error

text \<open>
  How a call ends: it returns a value, it throws, it waits for ever on a mutex that
  nobody will release (\<open>Blocks\<close>), or it reads an array out of bounds, for which C++
  defines no behaviour (\<open>Undefined\<close>).
\<close>

datatype 'a outcome = Returns 'a | Throws exn | Blocks | Undefined

subsection \<open>Numbers as text\<close>

definition digit :: "nat \<Rightarrow> char" where
  "digit d = char_of (48 + d)"

fun to_string_nat :: "nat \<Rightarrow> string" where
  "to_string_nat n =
     (if n < 10 then [digit n] else to_string_nat (n div 10) @ [digit (n mod 10)])"

declare to_string_nat.simps [simp del]

text \<open>\<open>std::to_string\<close> and \<open>operator<<\<close> on an integer: decimal, a minus sign when negative.\<close>

definition to_string :: "int \<Rightarrow> string" where
  "to_string i = (if i < 0 then CHR ''-'' # to_string_nat (nat (- i)) else to_string_nat (nat i))"

text \<open>\<open>std::setw(3) << std::setfill('0')\<close> in front of a number.\<close>

definition setw3 :: "string \<Rightarrow> string" where
  "setw3 s = replicate (3 - length s) (CHR ''0'') @ s"

subsection \<open>The file system and the clock\<close>

text \<open>
  A file system maps a path to the bytes of the regular file there. \<open>denied\<close> holds the
  paths that \<open>std::ofstream\<close> cannot open (a missing directory, no permission). A stream
  writes to the file that its path names: the logger closes its stream before it renames
  the file, and the model does not follow a file that something else moves while a
  stream is open on it.
\<close>

record filesystem =
  files :: "string \<rightharpoonup> string"
  denied :: "string set"

text \<open>\<open>std::filesystem::exists\<close>, \<open>file_size\<close> (which throws on a missing file) and \<open>rename\<close>
  (which throws on a missing source and replaces an existing target). The size is the
  number of bytes; a file is shorter than \<open>2^64\<close> bytes, so that \<open>uintmax_t\<close> holds it.\<close>

definition fs_exists :: "filesystem \<Rightarrow> string \<Rightarrow> bool" where
  "fs_exists f p = (files f p \<noteq> None)"

definition fs_file_size :: "filesystem \<Rightarrow> string \<Rightarrow> exn + nat" where
  "fs_file_size f p = (case files f p of None \<Rightarrow> Inl filesystem_error | Some c \<Rightarrow> Inr (length c))"

definition fs_rename :: "filesystem \<Rightarrow> string \<Rightarrow> string \<Rightarrow> exn + filesystem" where
  "fs_rename f old new =
     (case files f old of
        None \<Rightarrow> Inl filesystem_error
      | Some c \<Rightarrow> Inr (if old = new then f else f\<lparr>files := (files f)(old := None, new \<mapsto> c)\<rparr>))"

text \<open>
  What the code reads from the clocks and from the file's metadata. Each field is the
  value one read yields; nothing relates two fields, as the code reads the clock anew
  for each of them.
  \<^item> \<open>now_date\<close>: \<open>put_time(localtime(now), "%Y%m%d")\<close>;
  \<^item> \<open>now_datetime\<close>: \<open>put_time(localtime(now), "%F %T")\<close>;
  \<^item> \<open>now_millis\<close>: \<open>duration_cast<milliseconds>(now.time_since_epoch()).count()\<close>, a
    signed number, negative for a clock set before 1970;
  \<^item> \<open>now_ticks\<close>: \<open>high_resolution_clock::now()\<close>, in nanoseconds;
  \<^item> \<open>last_write_date\<close>: the \<open>%Y%m%d\<close> stamp of \<open>last_write_time\<close> of a path.

  A file stream has a buffer of a size that the library chooses, and when text does not
  fit, it writes bytes to the file by itself. \<open>spill\<close> is the number of waiting bytes
  (those in the buffer, then the new text) that the stream writes out in this way while
  the call inserts its text; any number is possible, and the theorems hold for each.
\<close>

record env =
  now_date :: string
  now_datetime :: string
  now_millis :: int
  now_ticks :: int
  last_write_date :: "string \<Rightarrow> string"
  spill :: nat

subsection \<open>Streams and sinks\<close>

text \<open>
  What \<open>LogSink::stream\<close> points to: \<open>std::cout\<close>, \<open>std::cerr\<close>, an open \<open>std::ofstream\<close>
  (its path and the bytes still in its buffer), or an \<open>ofstream\<close> after \<open>close()\<close>, which
  drops whatever is written to it.
\<close>

datatype ostream = Cout | Cerr | OFStream string string | Closed

text \<open>\<open>struct LogSink\<close>; \<open>lsm\<close> is True while the mutex is held.\<close>

record LogSink =
  lsm :: bool
  stream :: ostream
  fileName :: string
  creationDate :: string
  maxSize :: "64 word"
  maxNumFiles :: "8 word"
  rotateDaily :: bool

text \<open>
  Modelled from the spec: \<open>DualFunction\<close>, whose header \<open>dual_function.h\<close> is not among
  the sources. It is a two-mode switch over two functions: a call runs the first
  function after \<open>enableFirst()\<close> and the second after \<open>enableSecond()\<close>. The state
  keeps the mode of each of the six \<open>DualFunction\<close> members of the logger.
\<close>

datatype DualMode = First | Second

text \<open>
  The sinks live in an arena: \<open>heap\<close> maps a handle to the sink, \<open>next_sink\<close> is the first
  unused handle, and \<open>sinks\<close> (the array \<open>_sinks\<close>) holds one handle per level; two levels
  that share a \<open>shared_ptr\<close> hold the same handle. The array has four entries, so the
  entry of \<open>NONE\<close> is never read: the functions below check for it first.
  \<open>daily_threads\<close> lists the sinks for which a rotation thread was started.
\<close>

record logger_state =
  heap :: "nat \<Rightarrow> LogSink"
  next_sink :: nat
  sinks :: "LogLevel \<Rightarrow> nat"
  timers :: "int list"
  debug :: DualMode
  info :: DualMode
  error :: DualMode
  getDebugStream :: DualMode
  getInfoStream :: DualMode
  getErrorStream :: DualMode
  daily_threads :: "nat list"
  fs :: filesystem
  cout :: string
  cerr :: string
  strbuf :: string

text \<open>\<open>LogSink(std::ostream&)\<close>, the constructor of the two default sinks.\<close>

definition LogSink_stream :: "ostream \<Rightarrow> LogSink" where
  "LogSink_stream s =
     \<lparr>lsm = False, stream = s, fileName = [], creationDate = [], maxSize = 0,
      maxNumFiles = 0, rotateDaily = False\<rparr>"

text \<open>
  The state after static initialisation: \<open>defLogSink\<close> is handle 0, \<open>defErrLogSink\<close> is
  handle 1, \<open>_sinks\<close> is \<open>{defLogSink, defLogSink, defErrLogSink, defLogSink}\<close>, and every
  level is enabled, as the header's comment says.
\<close>

definition levels :: "LogLevel list" where
  "levels = [DEBUG, INFO, ERROR, PROFILING]"

definition init_state :: "filesystem \<Rightarrow> logger_state" where
  "init_state f =
     \<lparr>heap = (\<lambda>_. LogSink_stream Cerr)(0 := LogSink_stream Cout),
      next_sink = 2,
      sinks = (\<lambda>l. if l = ERROR then 1 else 0),
      timers = [],
      debug = First, info = First, error = First,
      getDebugStream = First, getInfoStream = First, getErrorStream = First,
      daily_threads = [],
      fs = f, cout = [], cerr = [], strbuf = []\<rparr>"

section \<open>Operations\<close>

text \<open>Sequencing: the second step runs only when the first returns; a throw, a block or
  undefined behaviour ends the call with the state reached so far.\<close>

definition and_then ::
  "'a outcome \<times> 's \<Rightarrow> ('a \<Rightarrow> 's \<Rightarrow> 'b outcome \<times> 's) \<Rightarrow> 'b outcome \<times> 's" where
  "and_then m k =
     (case m of (r, s) \<Rightarrow>
        (case r of
           Returns x \<Rightarrow> k x s
         | Throws e \<Rightarrow> (Throws e, s)
         | Blocks \<Rightarrow> (Blocks, s)
         | Undefined \<Rightarrow> (Undefined, s)))"

definition set_sink :: "nat \<Rightarrow> (LogSink \<Rightarrow> LogSink) \<Rightarrow> logger_state \<Rightarrow> logger_state" where
  "set_sink h g st = st\<lparr>heap := (heap st)(h := g (heap st h))\<rparr>"

subsection \<open>Writing to a sink's stream\<close>

definition nl :: string where
  "nl = [CHR 0x0A]"

text \<open>\<open>*sink.stream << text\<close>: the standard streams show the text at once and a closed
  stream drops it. A file stream puts the text behind the bytes in its buffer and
  writes the first \<open>k\<close> of the waiting bytes to the file at its path (they are lost when
  that file is gone); the others stay in the buffer.\<close>

definition stream_put :: "nat \<Rightarrow> string \<Rightarrow> nat \<Rightarrow> logger_state \<Rightarrow> logger_state" where
  "stream_put h text k st =
     (case stream (heap st h) of
        Cout \<Rightarrow> st\<lparr>cout := cout st @ text\<rparr>
      | Cerr \<Rightarrow> st\<lparr>cerr := cerr st @ text\<rparr>
      | OFStream p buf \<Rightarrow>
          (set_sink h (\<lambda>s. s\<lparr>stream := OFStream p (drop k (buf @ text))\<rparr>) st)
            \<lparr>fs := (case files (fs st) p of
                      None \<Rightarrow> fs st
                    | Some c \<Rightarrow> (fs st)\<lparr>files := (files (fs st))(p \<mapsto> c @ take k (buf @ text))\<rparr>)\<rparr>
      | Closed \<Rightarrow> st)"

text \<open>\<open>sink.stream->flush()\<close>: the buffer of a file stream goes to the file at its path;
  it is lost when that file is gone.\<close>

definition stream_flush :: "nat \<Rightarrow> logger_state \<Rightarrow> logger_state" where
  "stream_flush h st =
     (case stream (heap st h) of
        OFStream p buf \<Rightarrow>
          (set_sink h (\<lambda>s. s\<lparr>stream := OFStream p []\<rparr>) st)
            \<lparr>fs := (case files (fs st) p of
                      None \<Rightarrow> fs st
                    | Some c \<Rightarrow> (fs st)\<lparr>files := (files (fs st))(p \<mapsto> c @ buf)\<rparr>)\<rparr>
      | Cout \<Rightarrow> st
      | Cerr \<Rightarrow> st
      | Closed \<Rightarrow> st)"

text \<open>\<open>static_cast<std::ofstream*>(sink.stream)->close()\<close>, which writes the buffer out
  first. The cast is only valid for a file stream.\<close>

definition is_ofstream :: "ostream \<Rightarrow> bool" where
  "is_ofstream s = (case s of Cout \<Rightarrow> False | Cerr \<Rightarrow> False | OFStream p buf \<Rightarrow> True | Closed \<Rightarrow> True)"

definition stream_close :: "nat \<Rightarrow> logger_state \<Rightarrow> unit outcome \<times> logger_state" where
  "stream_close h st =
     (if is_ofstream (stream (heap st h))
      then (Returns (), set_sink h (\<lambda>s. s\<lparr>stream := Closed\<rparr>) (stream_flush h st))
      else (Undefined, st))"

text \<open>\<open>Logger::_openLogFile\<close>: \<open>new std::ofstream(fileName, ios::ate | ios::app)\<close> creates
  the file when it is missing and keeps its bytes otherwise; no system opens the empty
  path.\<close>

definition openLogFile :: "string \<Rightarrow> filesystem \<Rightarrow> ostream outcome \<times> filesystem" where
  "openLogFile name f =
     (if name = [] \<or> name \<in> denied f
      then (Throws (runtime_error (''Log File cannot be opened: '' @ name)), f)
      else (Returns (OFStream name []),
            f\<lparr>files := (files f)(name \<mapsto> (case files f name of None \<Rightarrow> [] | Some c \<Rightarrow> c))\<rparr>))"

subsection \<open>Constructing a file sink\<close>

text \<open>
  \<open>LogSink(const std::string&, Policy, uint8_t, uintmax_t)\<close>. The result carries the sink
  and whether the constructor started \<open>_dailyRotationThread\<close>. For \<open>DAILY\<close> the file is
  opened twice; the first stream is never used again.
\<close>

definition LogSink_file ::
  "string \<Rightarrow> Policy \<Rightarrow> 8 word \<Rightarrow> 64 word \<Rightarrow> env \<Rightarrow> filesystem
     \<Rightarrow> (LogSink \<times> bool) outcome \<times> filesystem" where
  "LogSink_file name policy maxNum maxSz e f =
     (let s0 = \<lparr>lsm = False, stream = Closed, fileName = name, creationDate = [],
                maxSize = maxSz,
                maxNumFiles = (if policy = MAX_SIZE \<and> maxSz \<noteq> 0 then max maxNum 2 else 0),
                rotateDaily = False\<rparr>
      in if policy = DAILY then
           (let s1 = s0\<lparr>creationDate :=
                         (if fs_exists f name then last_write_date e name else now_date e)\<rparr>
            in and_then (openLogFile name f) (\<lambda>str1 f1.
               and_then (openLogFile name f1) (\<lambda>str2 f2.
                 (Returns (s1\<lparr>stream := str2\<rparr>, True), f2))))
         else
           and_then (openLogFile name f) (\<lambda>str f1. (Returns (s0\<lparr>stream := str\<rparr>, False), f1)))"

subsection \<open>Size rotation\<close>

text \<open>The loop of \<open>_sizeRotation\<close>: \<open>for (auto i = sink.maxNumFiles - 2; i > 0; --i)\<close>, with
  \<open>i\<close> an \<open>int\<close> after integral promotion.\<close>

function shift_archives :: "string \<Rightarrow> int \<Rightarrow> filesystem \<Rightarrow> unit outcome \<times> filesystem" where
  "shift_archives name i f =
     (if 0 < i then
        (let file = name @ ''.'' @ to_string i in
         if fs_exists f file then
           (case fs_rename f file (name @ ''.'' @ to_string (i + 1)) of
              Inl x \<Rightarrow> (Throws x, f)
            | Inr f' \<Rightarrow> shift_archives name (i - 1) f')
         else shift_archives name (i - 1) f)
      else (Returns (), f))"
  by pat_completeness auto
termination
  by (relation "measure (\<lambda>(name, i, f). nat i)") auto

declare shift_archives.simps [simp del]

definition sizeRotation :: "nat \<Rightarrow> env \<Rightarrow> logger_state \<Rightarrow> unit outcome \<times> logger_state" where
  "sizeRotation h e st =
     (let name = fileName (heap st h) in
      case fs_file_size (fs st) name of
        Inl x \<Rightarrow> (Throws x, st)
      | Inr sz \<Rightarrow>
          if unat (maxSize (heap st h)) < sz then
            and_then (stream_close h (stream_flush h st)) (\<lambda>_ st1.
            and_then (case shift_archives name (int (unat (maxNumFiles (heap st1 h))) - 2) (fs st1) of
                        (r, f2) \<Rightarrow> (r, st1\<lparr>fs := f2\<rparr>)) (\<lambda>_ st2.
            case fs_rename (fs st2) name (name @ ''.1'') of
              Inl x \<Rightarrow> (Throws x, st2)
            | Inr f3 \<Rightarrow>
                (case openLogFile name f3 of (r, f4) \<Rightarrow>
                   and_then (r, st2\<lparr>fs := f4\<rparr>) (\<lambda>str st4.
                     (Returns (),
                      set_sink h (\<lambda>s. s\<lparr>stream := str, creationDate := now_date e\<rparr>) st4)))))
          else (Returns (), st))"

subsection \<open>The write path\<close>

text \<open>\<open>_HEADERS\<close> has three entries; there is none for \<open>PROFILING\<close> and \<open>NONE\<close>.\<close>

definition HEADERS :: "LogLevel \<Rightarrow> string option" where
  "HEADERS l =
     (case l of
        DEBUG \<Rightarrow> Some ''DEBUG: ''
      | INFO \<Rightarrow> Some ''INFO: ''
      | ERROR \<Rightarrow> Some (''*** ERROR!'' @ nl @ replicate 25 (CHR '' ''))
      | PROFILING \<Rightarrow> None
      | NONE \<Rightarrow> None)"

text \<open>\<open>%\<close> of C++ on signed numbers, for a positive divisor: the result has the sign of
  the dividend.\<close>

definition cpp_mod :: "int \<Rightarrow> int \<Rightarrow> int" where
  "cpp_mod a b = (if a < 0 then - ((- a) mod b) else a mod b)"

text \<open>The time in front of a line: \<open>put_time(..., "%F %T") << "." << setw(3) <<
  setfill('0') << milliseconds << " - "\<close>, with \<open>milliseconds = count() % 1000\<close>.\<close>

definition stamp :: "env \<Rightarrow> string" where
  "stamp e = now_datetime e @ ''.'' @ setw3 (to_string (cpp_mod (now_millis e) 1000)) @ '' - ''"

text \<open>\<open>Logger::_write\<close>. \<open>std::endl\<close> writes a newline and flushes, so that it does not
  matter what the stream wrote out by itself before. A call that finds the
  mutex held never returns; a throw from \<open>_sizeRotation\<close> leaves the mutex held. The
  logger itself calls this private function with DEBUG, INFO and ERROR only; for the
  two other levels it would read \<open>_HEADERS\<close> out of bounds.\<close>

definition Logger_write :: "LogLevel \<Rightarrow> string \<Rightarrow> env \<Rightarrow> logger_state \<Rightarrow> unit outcome \<times> logger_state" where
  "Logger_write level trace e st =
     (case HEADERS level of
        None \<Rightarrow> (Undefined, st)
      | Some header \<Rightarrow>
          (let h = sinks st level in
           if lsm (heap st h) then (Blocks, st)
           else
             and_then
               (if maxSize (heap st h) \<noteq> 0
                then sizeRotation h e (set_sink h (\<lambda>s. s\<lparr>lsm := True\<rparr>) st)
                else (Returns (), set_sink h (\<lambda>s. s\<lparr>lsm := True\<rparr>) st))
               (\<lambda>_ st2.
                  (Returns (),
                   set_sink h (\<lambda>s. s\<lparr>lsm := False\<rparr>)
                     (stream_put h (stamp e @ header @ trace) (spill e)
                        (stream_flush h (stream_put h nl 0 st2)))))))"

text \<open>\<open>Logger::_writeOut\<close>: the same without the message.\<close>

definition writeOut :: "LogLevel \<Rightarrow> env \<Rightarrow> logger_state \<Rightarrow> unit outcome \<times> logger_state" where
  "writeOut level e st =
     (case HEADERS level of
        None \<Rightarrow> (Undefined, st)
      | Some header \<Rightarrow>
          (let h = sinks st level in
           if lsm (heap st h) then (Blocks, st)
           else
             and_then
               (if maxSize (heap st h) \<noteq> 0
                then sizeRotation h e (set_sink h (\<lambda>s. s\<lparr>lsm := True\<rparr>) st)
                else (Returns (), set_sink h (\<lambda>s. s\<lparr>lsm := True\<rparr>) st))
               (\<lambda>_ st2.
                  (Returns (),
                   set_sink h (\<lambda>s. s\<lparr>lsm := False\<rparr>)
                     (stream_put h (stamp e @ header) (spill e)
                        (stream_flush h (stream_put h nl 0 st2)))))))"

text \<open>A pointer to a stream: the stream of a sink, or \<open>_nullStream\<close>.\<close>

datatype stream_ptr = SinkStream nat | NullStream

text \<open>\<open>_getStream\<close>: writes the head of the line and returns \<open>_sinks[level]->stream\<close>.\<close>

definition getStream :: "LogLevel \<Rightarrow> env \<Rightarrow> logger_state \<Rightarrow> stream_ptr outcome \<times> logger_state" where
  "getStream level e st =
     and_then (writeOut level e st) (\<lambda>_ st1. (Returns (SinkStream (sinks st1 level)), st1))"

text \<open>What the caller then does with the pointer, \<open>*ptr << text\<close>; the null stream keeps
  the text in its string buffer.\<close>

definition ptr_put :: "stream_ptr \<Rightarrow> string \<Rightarrow> nat \<Rightarrow> logger_state \<Rightarrow> logger_state" where
  "ptr_put p text k st =
     (case p of
        SinkStream h \<Rightarrow> stream_put h text k st
      | NullStream \<Rightarrow> st\<lparr>strbuf := strbuf st @ text\<rparr>)"

subsection \<open>The entry points and their switches\<close>

text \<open>Calling one of the six \<open>DualFunction\<close> members: \<open>Logger::debug(trace)\<close> and so on.\<close>

definition call_debug :: "string \<Rightarrow> env \<Rightarrow> logger_state \<Rightarrow> unit outcome \<times> logger_state" where
  "call_debug trace e st =
     (case debug st of First \<Rightarrow> Logger_write DEBUG trace e st | Second \<Rightarrow> (Returns (), st))"

definition call_info :: "string \<Rightarrow> env \<Rightarrow> logger_state \<Rightarrow> unit outcome \<times> logger_state" where
  "call_info trace e st =
     (case info st of First \<Rightarrow> Logger_write INFO trace e st | Second \<Rightarrow> (Returns (), st))"

definition call_error :: "string \<Rightarrow> env \<Rightarrow> logger_state \<Rightarrow> unit outcome \<times> logger_state" where
  "call_error trace e st =
     (case error st of First \<Rightarrow> Logger_write ERROR trace e st | Second \<Rightarrow> (Returns (), st))"

definition call_getDebugStream :: "env \<Rightarrow> logger_state \<Rightarrow> stream_ptr outcome \<times> logger_state" where
  "call_getDebugStream e st =
     (case getDebugStream st of First \<Rightarrow> getStream DEBUG e st | Second \<Rightarrow> (Returns NullStream, st))"

definition call_getInfoStream :: "env \<Rightarrow> logger_state \<Rightarrow> stream_ptr outcome \<times> logger_state" where
  "call_getInfoStream e st =
     (case getInfoStream st of First \<Rightarrow> getStream INFO e st | Second \<Rightarrow> (Returns NullStream, st))"

definition call_getErrorStream :: "env \<Rightarrow> logger_state \<Rightarrow> stream_ptr outcome \<times> logger_state" where
  "call_getErrorStream e st =
     (case getErrorStream st of First \<Rightarrow> getStream ERROR e st | Second \<Rightarrow> (Returns NullStream, st))"

text \<open>\<open>Logger::setLevel\<close>; the \<open>switch\<close> has no case for \<open>PROFILING\<close>.\<close>

definition setLevel :: "LogLevel \<Rightarrow> logger_state \<Rightarrow> logger_state" where
  "setLevel level st =
     (case level of
        DEBUG \<Rightarrow> st\<lparr>debug := First, info := First, error := First,
                    getDebugStream := First, getInfoStream := First, getErrorStream := First\<rparr>
      | INFO \<Rightarrow> st\<lparr>debug := Second, info := First, error := First,
                    getDebugStream := Second, getInfoStream := First, getErrorStream := First\<rparr>
      | ERROR \<Rightarrow> st\<lparr>debug := Second, info := Second, error := First,
                    getDebugStream := Second, getInfoStream := Second, getErrorStream := First\<rparr>
      | PROFILING \<Rightarrow> st
      | NONE \<Rightarrow> st\<lparr>debug := Second, info := Second, error := Second,
                    getDebugStream := Second, getInfoStream := Second, getErrorStream := Second\<rparr>)"

subsection \<open>Assigning files to levels\<close>

text \<open>
  \<open>new LogSink(...)\<close> followed by the use of the new \<open>shared_ptr\<close>: the sink gets the next
  handle of the arena only when its constructor returns.
\<close>

definition new_LogSink ::
  "string \<Rightarrow> Policy \<Rightarrow> 8 word \<Rightarrow> 64 word \<Rightarrow> env \<Rightarrow> logger_state \<Rightarrow> nat outcome \<times> logger_state" where
  "new_LogSink name policy maxNum maxSz e st =
     (case LogSink_file name policy maxNum maxSz e (fs st) of (r, f1) \<Rightarrow>
        and_then (r, st\<lparr>fs := f1\<rparr>) (\<lambda>(s, thread) st1.
          (Returns (next_sink st1),
           st1\<lparr>heap := (heap st1)(next_sink st1 := s),
               next_sink := Suc (next_sink st1),
               daily_threads := (if thread then daily_threads st1 @ [next_sink st1]
                                 else daily_threads st1)\<rparr>)))"

text \<open>\<open>Logger::setLogFile(LogLevel, ...)\<close>. \<open>_sinks[NONE]\<close> lies outside the array.\<close>

definition setLogFile ::
  "LogLevel \<Rightarrow> string \<Rightarrow> Policy \<Rightarrow> 8 word \<Rightarrow> 64 word \<Rightarrow> env \<Rightarrow> logger_state
     \<Rightarrow> unit outcome \<times> logger_state" where
  "setLogFile level name policy maxNum maxSz e st =
     (if level = NONE then (Undefined, st)
      else if fileName (heap st (sinks st level)) \<noteq> []
      then (Throws (runtime_error ''Log file already assigned to this log level''), st)
      else
        (case find (\<lambda>l. fileName (heap st (sinks st l)) = name) levels of
           Some l \<Rightarrow> (Returns (), st\<lparr>sinks := (sinks st)(level := sinks st l)\<rparr>)
         | None \<Rightarrow>
             and_then (new_LogSink name policy maxNum maxSz e st) (\<lambda>h st1.
               (Returns (), st1\<lparr>sinks := (sinks st1)(level := h)\<rparr>))))"

text \<open>\<open>Logger::setLogFile(const std::string&, ...)\<close>, for all levels at once.\<close>

definition setLogFile_all ::
  "string \<Rightarrow> Policy \<Rightarrow> 8 word \<Rightarrow> 64 word \<Rightarrow> env \<Rightarrow> logger_state \<Rightarrow> unit outcome \<times> logger_state" where
  "setLogFile_all name policy maxNum maxSz e st =
     (case find (\<lambda>l. fileName (heap st (sinks st l)) \<noteq> []) levels of
        Some l \<Rightarrow>
          (Throws (runtime_error (''Log file already assigned to a log sink: ''
                                   @ fileName (heap st (sinks st l)))), st)
      | None \<Rightarrow>
          and_then (new_LogSink name policy maxNum maxSz e st) (\<lambda>h st1.
            (Returns (), st1\<lparr>sinks := fold (\<lambda>l t. t(l := h)) levels (sinks st1)\<rparr>)))"

subsection \<open>Daily rotation\<close>

text \<open>
  One turn of the \<open>while (true)\<close> loop of \<open>_dailyRotationThread\<close>, up to the sleep. The
  date is read once. \<open>&&\<close> asks for the file's size only when the dates differ. A throw
  from \<open>_openLogFile\<close> leaves the mutex held.
\<close>

definition dailyRotation_turn :: "nat \<Rightarrow> env \<Rightarrow> logger_state \<Rightarrow> unit outcome \<times> logger_state" where
  "dailyRotation_turn h e st =
     (let name = fileName (heap st h); created = creationDate (heap st h) in
      if created \<noteq> now_date e then
        (case fs_file_size (fs st) name of
           Inl x \<Rightarrow> (Throws x, st)
         | Inr sz \<Rightarrow>
             if sz \<noteq> 0 then
               (if lsm (heap st h) then (Blocks, st)
                else
                  and_then (stream_close h (stream_flush h (set_sink h (\<lambda>s. s\<lparr>lsm := True\<rparr>) st)))
                    (\<lambda>_ st1.
                       case fs_rename (fs st1) name (name @ ''.'' @ created) of
                         Inl x \<Rightarrow> (Throws x, st1)
                       | Inr f2 \<Rightarrow>
                           (case openLogFile name f2 of (r, f3) \<Rightarrow>
                              and_then (r, st1\<lparr>fs := f3\<rparr>) (\<lambda>str st3.
                                (Returns (),
                                 set_sink h (\<lambda>s. s\<lparr>stream := str, creationDate := now_date e,
                                                    lsm := False\<rparr>) st3)))))
             else (Returns (), st))
      else (Returns (), st))"

text \<open>
  The thread itself: one turn for each time it wakes up, given by the clock readings of
  its turns. It ends only when a turn does not return; after the last reading of the
  list it is asleep.
\<close>

fun dailyRotationThread :: "nat \<Rightarrow> env list \<Rightarrow> logger_state \<Rightarrow> unit outcome \<times> logger_state" where
  "dailyRotationThread h [] st = (Returns (), st)"
| "dailyRotationThread h (e # es) st =
     and_then (dailyRotation_turn h e st) (\<lambda>_ st1. dailyRotationThread h es st1)"

subsection \<open>Profiling timers\<close>

text \<open>The units of \<open>std::chrono\<close> that \<open>timerStop(unit)\<close> can name, and their length in ticks
  of the clock (nanoseconds).\<close>

datatype chrono_unit = nanoseconds | microseconds | milliseconds | seconds | minutes | hours

definition ticks_per :: "chrono_unit \<Rightarrow> int" where
  "ticks_per u =
     (case u of
        nanoseconds \<Rightarrow> 1
      | microseconds \<Rightarrow> 1000
      | milliseconds \<Rightarrow> 1000000
      | seconds \<Rightarrow> 1000000000
      | minutes \<Rightarrow> 60000000000
      | hours \<Rightarrow> 3600000000000)"

text \<open>\<open>duration_cast\<close> to a coarser unit divides and drops the fraction, towards zero.\<close>

definition duration_cast :: "chrono_unit \<Rightarrow> int \<Rightarrow> int" where
  "duration_cast u d =
     (if d < 0 then - ((- d) div ticks_per u) else d div ticks_per u)"

text \<open>\<open>Logger::startTimer\<close>.\<close>

definition startTimer :: "string \<Rightarrow> int \<Rightarrow> env \<Rightarrow> logger_state \<Rightarrow> unit outcome \<times> logger_state" where
  "startTimer func line e st =
     (let st1 = stream_put (sinks st PROFILING)
                  (nl @ ''Timer #'' @ to_string (int (length (timers st) + 1)) @ '' STARTED at ''
                     @ func @ '' (Line '' @ to_string line @ '')'') (spill e) st
      in (Returns (), st1\<lparr>timers := timers st1 @ [now_ticks e]\<rparr>))"

text \<open>\<open>Logger::stopTimer<UNIT>\<close>; \<open>unit\<close> is the name the macro passes along with the type.
  After \<open>Timer not started!\<close> comes \<open>std::endl\<close>, whose flush writes everything out.\<close>

definition stopTimer ::
  "chrono_unit \<Rightarrow> string \<Rightarrow> string \<Rightarrow> int \<Rightarrow> env \<Rightarrow> logger_state
     \<Rightarrow> unit outcome \<times> logger_state" where
  "stopTimer u unit func line e st =
     (let stopTime = now_ticks e in
      if length (timers st) \<noteq> 0 then
        (let duration = duration_cast u (stopTime - last (timers st));
             st1 = stream_put (sinks st PROFILING)
                     (nl @ ''Timer #'' @ to_string (int (length (timers st))) @ '' STOPPED at ''
                        @ func @ '' (Line '' @ to_string line @ '') --- DURATION = ''
                        @ to_string duration @ '' '' @ unit) (spill e) st
         in (Returns (), st1\<lparr>timers := butlast (timers st1)\<rparr>))
      else
        (Returns (),
         stream_flush (sinks st PROFILING)
           (stream_put (sinks st PROFILING) nl 0
              (stream_put (sinks st PROFILING) ''Timer not started!'' 0 st))))"

subsection \<open>Runs of a program that uses the logger\<close>

text \<open>
  What can happen to the logger, one event at a time: a call of a public member, the use
  of a stream macro (\<open>debugOut << text\<close> asks for the stream and writes to it), a turn of
  the rotation thread of a sink, and a change of the file system from outside.
\<close>

datatype event =
    E_debug string env
  | E_info string env
  | E_error string env
  | E_debugOut string env
  | E_infoOut string env
  | E_errorOut string env
  | E_setLevel LogLevel
  | E_setLogFile LogLevel string Policy "8 word" "64 word" env
  | E_setLogFile_all string Policy "8 word" "64 word" env
  | E_startTimer string int env
  | E_stopTimer chrono_unit string string int env
  | E_daily nat env
  | E_outside filesystem

fun step :: "event \<Rightarrow> logger_state \<Rightarrow> unit outcome \<times> logger_state" where
  "step (E_debug trace e) st = call_debug trace e st"
| "step (E_info trace e) st = call_info trace e st"
| "step (E_error trace e) st = call_error trace e st"
| "step (E_debugOut text e) st =
     and_then (call_getDebugStream e st) (\<lambda>p st1. (Returns (), ptr_put p text (spill e) st1))"
| "step (E_infoOut text e) st =
     and_then (call_getInfoStream e st) (\<lambda>p st1. (Returns (), ptr_put p text (spill e) st1))"
| "step (E_errorOut text e) st =
     and_then (call_getErrorStream e st) (\<lambda>p st1. (Returns (), ptr_put p text (spill e) st1))"
| "step (E_setLevel level) st = (Returns (), setLevel level st)"
| "step (E_setLogFile level name policy maxNum maxSz e) st =
     setLogFile level name policy maxNum maxSz e st"
| "step (E_setLogFile_all name policy maxNum maxSz e) st =
     setLogFile_all name policy maxNum maxSz e st"
| "step (E_startTimer func line e) st = startTimer func line e st"
| "step (E_stopTimer u unit func line e) st = stopTimer u unit func line e st"
| "step (E_daily h e) st =
     (if h \<in> set (daily_threads st) then dailyRotation_turn h e st else (Returns (), st))"
| "step (E_outside f) st = (Returns (), st\<lparr>fs := f\<rparr>)"

text \<open>A run goes on after an event that threw, as a caller that catches the exception
  does; the state is the one the throw left behind.\<close>

fun run :: "event list \<Rightarrow> logger_state \<Rightarrow> logger_state" where
  "run [] st = st"
| "run (ev # evs) st = run evs (snd (step ev st))"

subsection \<open>Concrete inputs\<close>

definition env0 :: env where
  "env0 = \<lparr>now_date = ''20240102'', now_datetime = ''2024-01-02 03:04:05'', now_millis = 7,
           now_ticks = 5000, last_write_date = (\<lambda>_. ''20240101''), spill = 0\<rparr>"

definition fs0 :: filesystem where
  "fs0 = \<lparr>files = Map.empty, denied = {''bad''}\<rparr>"

text \<open>The state of a program that has given INFO the file \<open>a.log\<close>, with at most four
  files of 500 bytes.\<close>

definition st_info_file :: logger_state where
  "st_info_file = snd (setLogFile INFO ''a.log'' MAX_SIZE 4 500 env0 (init_state fs0))"

subsection \<open>What a stream has taken\<close>

text \<open>
  To say what a call wrote, \<open>seen h st\<close> is all the text that lies behind the stream of
  sink \<open>h\<close>: the output of the standard stream, or the bytes of the file followed by the
  bytes still in the buffer. \<open>writable h st\<close> says that the stream takes text: it is a
  standard stream, or a file stream whose file is there.
\<close>

definition seen :: "nat \<Rightarrow> logger_state \<Rightarrow> string" where
  "seen h st =
     (case stream (heap st h) of
        Cout \<Rightarrow> cout st
      | Cerr \<Rightarrow> cerr st
      | OFStream p buf \<Rightarrow> (case files (fs st) p of None \<Rightarrow> [] | Some c \<Rightarrow> c) @ buf
      | Closed \<Rightarrow> [])"

definition writable :: "nat \<Rightarrow> logger_state \<Rightarrow> bool" where
  "writable h st =
     (case stream (heap st h) of
        Cout \<Rightarrow> True
      | Cerr \<Rightarrow> True
      | OFStream p buf \<Rightarrow> fs_exists (fs st) p
      | Closed \<Rightarrow> False)"

text \<open>The two lines of the timers, as \<open>startTimer\<close> and \<open>stopTimer\<close> put them together.\<close>

definition started_line :: "nat \<Rightarrow> string \<Rightarrow> int \<Rightarrow> string" where
  "started_line k func line =
     nl @ ''Timer #'' @ to_string (int k) @ '' STARTED at '' @ func
        @ '' (Line '' @ to_string line @ '')''"

definition stopped_line :: "nat \<Rightarrow> string \<Rightarrow> int \<Rightarrow> int \<Rightarrow> string \<Rightarrow> string" where
  "stopped_line k func line duration unit =
     nl @ ''Timer #'' @ to_string (int k) @ '' STOPPED at '' @ func
        @ '' (Line '' @ to_string line @ '') --- DURATION = '' @ to_string duration
        @ '' '' @ unit"

subsection \<open>What stays fixed in a sink\<close>

text \<open>The number of sinks in the arena and, for each handle, the three fields of the sink
  that only its constructor sets.\<close>

definition shape :: "logger_state \<Rightarrow> nat \<times> (nat \<Rightarrow> string \<times> 64 word \<times> 8 word)" where
  "shape st =
     (next_sink st, \<lambda>h. (fileName (heap st h), maxSize (heap st h), maxNumFiles (heap st h)))"

subsection \<open>Names of archives\<close>

text \<open>The name of the archive with number \<open>i\<close> of a log file, as \<open>_sizeRotation\<close> builds it.\<close>

definition archive :: "string \<Rightarrow> int \<Rightarrow> string" where
  "archive name i = name @ ''.'' @ to_string i"

text \<open>A directory left by an earlier run: the log file with ten bytes and three archives.\<close>

definition fs_full :: filesystem where
  "fs_full =
     \<lparr>files = [''a.log'' \<mapsto> ''0123456789'', ''a.log.1'' \<mapsto> ''one'', ''a.log.2'' \<mapsto> ''two'',
               ''a.log.3'' \<mapsto> ''three''],
      denied = {}\<rparr>"

text \<open>INFO writes to that file, with at most four files of five bytes.\<close>

definition st_rot :: logger_state where
  "st_rot = snd (setLogFile INFO ''a.log'' MAX_SIZE 4 5 env0 (init_state fs_full))"

text \<open>A directory in which only the log file is left, with ten bytes.\<close>

definition fs_old :: filesystem where
  "fs_old = \<lparr>files = [''a.log'' \<mapsto> ''0123456789''], denied = {}\<rparr>"

text \<open>DEBUG is given that file with the policy \<open>NONE\<close>, no number of files and a size
  limit of one byte.\<close>

definition st_none_policy :: logger_state where
  "st_none_policy = snd (setLogFile DEBUG ''a.log'' P_NONE 0 1 env0 (init_state fs_old))"





section \<open>Properties\<close>

subsection \<open>Levels switched on and off\<close>

lemma setLevel_modes:
  "debug (setLevel ERROR st) = Second" "info (setLevel ERROR st) = Second"
  "error (setLevel ERROR st) = First"
  "getDebugStream (setLevel ERROR st) = Second" "getInfoStream (setLevel ERROR st) = Second"
  "getErrorStream (setLevel ERROR st) = First"
  "debug (setLevel NONE st) = Second" "info (setLevel NONE st) = Second"
  "error (setLevel NONE st) = Second"
  "getDebugStream (setLevel NONE st) = Second" "getInfoStream (setLevel NONE st) = Second"
  "getErrorStream (setLevel NONE st) = Second"
  by (simp_all add: setLevel_def)

text \<open>
  Claim C4, as amended. After \<open>setLevel(ERROR)\<close> the write entry points and the stream
  accessors of DEBUG and INFO produce no output (they return with the state as it was,
  the accessors handing out the null stream), while the write entry point of ERROR is
  the real write path. After \<open>setLevel(NONE)\<close> all six entry points are switched off,
  the write function of ERROR among them: it returns and leaves the state as it was.
\<close>

theorem setLevel_switches:
  "call_debug t e (setLevel ERROR st) = (Returns (), setLevel ERROR st)
   \<and> call_info t e (setLevel ERROR st) = (Returns (), setLevel ERROR st)
   \<and> call_getDebugStream e (setLevel ERROR st) = (Returns NullStream, setLevel ERROR st)
   \<and> call_getInfoStream e (setLevel ERROR st) = (Returns NullStream, setLevel ERROR st)
   \<and> call_error t e (setLevel ERROR st) = Logger_write ERROR t e (setLevel ERROR st)
   \<and> call_debug t e (setLevel NONE st) = (Returns (), setLevel NONE st)
   \<and> call_info t e (setLevel NONE st) = (Returns (), setLevel NONE st)
   \<and> call_error t e (setLevel NONE st) = (Returns (), setLevel NONE st)
   \<and> call_getDebugStream e (setLevel NONE st) = (Returns NullStream, setLevel NONE st)
   \<and> call_getInfoStream e (setLevel NONE st) = (Returns NullStream, setLevel NONE st)
   \<and> call_getErrorStream e (setLevel NONE st) = (Returns NullStream, setLevel NONE st)"
  by (simp add: call_debug_def call_info_def call_error_def call_getDebugStream_def
      call_getInfoStream_def call_getErrorStream_def setLevel_modes)

text \<open>The same at the initial state: after \<open>setLevel(ERROR)\<close> a call of \<open>error\<close> puts its
  line on \<open>std::cerr\<close>, and after \<open>setLevel(NONE)\<close> it puts nothing there.\<close>

theorem setLevel_switches_witness:
  "cerr (snd (call_error ''boom'' env0 (setLevel ERROR (init_state fs0))))
     = nl @ ''2024-01-02 03:04:05.007 - *** ERROR!'' @ nl @ replicate 25 (CHR '' '') @ ''boom''
   \<and> cout (snd (call_debug ''boom'' env0 (setLevel ERROR (init_state fs0)))) = []
   \<and> call_error ''boom'' env0 (setLevel NONE (init_state fs0))
     = (Returns (), setLevel NONE (init_state fs0))"
proof -
  have w: "cerr (snd (Logger_write ERROR ''boom'' env0 (setLevel ERROR (init_state fs0))))
     = nl @ ''2024-01-02 03:04:05.007 - *** ERROR!'' @ nl @ replicate 25 (CHR '' '') @ ''boom''"
    by code_simp
  have c: "cout (setLevel ERROR (init_state fs0)) = []"
    by (simp add: setLevel_def init_state_def)
  show ?thesis
    using setLevel_switches [of "''boom''" env0 "init_state fs0"] w c by simp
qed

text \<open>Claim C4 as the spec states it fails: after \<open>setLevel(NONE)\<close> a call of \<open>error\<close>
  writes nothing, although the write path itself would have written to \<open>std::cerr\<close>.\<close>

theorem error_after_NONE_counterexample:
  "cerr (snd (call_error ''boom'' env0 (setLevel NONE (init_state fs0)))) = []
   \<and> cout (snd (call_error ''boom'' env0 (setLevel NONE (init_state fs0)))) = []
   \<and> cerr (snd (Logger_write ERROR ''boom'' env0 (setLevel NONE (init_state fs0)))) \<noteq> []"
  by (simp add: call_error_def Logger_write_def HEADERS_def setLevel_def init_state_def
      LogSink_stream_def set_sink_def stream_put_def stream_flush_def and_then_def nl_def
      stamp_def env0_def)

subsection \<open>Building blocks\<close>

lemma and_then_simps [simp]:
  "and_then (Returns x, s) k = k x s"
  "and_then (Throws x', s) k = (Throws x', s)"
  "and_then (Blocks, s) k = (Blocks, s)"
  "and_then (Undefined, s) k = (Undefined, s)"
  by (simp_all add: and_then_def)

lemma state_fs_same [simp]: "st\<lparr>fs := fs st\<rparr> = (st::logger_state)"
  by simp

lemma openLogFile_denied:
  "name = [] \<or> name \<in> denied f \<Longrightarrow>
   openLogFile name f = (Throws (runtime_error (''Log File cannot be opened: '' @ name)), f)"
  by (auto simp: openLogFile_def)

lemma openLogFile_ok:
  "name \<noteq> [] \<Longrightarrow> name \<notin> denied f \<Longrightarrow>
   openLogFile name f = (Returns (OFStream name []),
      f\<lparr>files := (files f)(name \<mapsto> (case files f name of None \<Rightarrow> [] | Some c \<Rightarrow> c))\<rparr>)"
  by (simp add: openLogFile_def)

lemma openLogFile_denied_same [simp]: "denied (snd (openLogFile name f)) = denied f"
  by (simp add: openLogFile_def)

lemma LogSink_file_denied:
  "name = [] \<or> name \<in> denied f \<Longrightarrow>
   LogSink_file name policy n sz e f = (Throws (runtime_error (''Log File cannot be opened: '' @ name)), f)"
  by (simp add: LogSink_file_def openLogFile_denied Let_def)

lemma new_LogSink_denied:
  "name = [] \<or> name \<in> denied (fs st) \<Longrightarrow>
   new_LogSink name policy n sz e st = (Throws (runtime_error (''Log File cannot be opened: '' @ name)), st)"
  by (simp add: new_LogSink_def LogSink_file_denied)

lemma LogSink_file_ok:
  assumes "name \<noteq> []" "name \<notin> denied f"
  shows "\<exists>s f'. LogSink_file name policy n sz e f = (Returns (s, policy = DAILY), f')
     \<and> fileName s = name \<and> maxSize s = sz
     \<and> maxNumFiles s = (if policy = MAX_SIZE \<and> sz \<noteq> 0 then max n 2 else 0)
     \<and> stream s = OFStream name [] \<and> \<not> lsm s
     \<and> denied f' = denied f
     \<and> files f' = (files f)(name \<mapsto> (case files f name of None \<Rightarrow> [] | Some c \<Rightarrow> c))"
  using assms by (auto simp: LogSink_file_def openLogFile_ok Let_def)

lemma new_LogSink_ok:
  assumes "name \<noteq> []" "name \<notin> denied (fs st)"
  shows "\<exists>st1. new_LogSink name policy n sz e st = (Returns (next_sink st), st1)
     \<and> next_sink st1 = Suc (next_sink st)
     \<and> sinks st1 = sinks st
     \<and> fileName (heap st1 (next_sink st)) = name
     \<and> maxSize (heap st1 (next_sink st)) = sz
     \<and> maxNumFiles (heap st1 (next_sink st)) = (if policy = MAX_SIZE \<and> sz \<noteq> 0 then max n 2 else 0)
     \<and> (\<forall>h. h \<noteq> next_sink st \<longrightarrow> heap st1 h = heap st h)"
proof -
  from LogSink_file_ok[OF assms, of policy n sz e] obtain s f' where
    "LogSink_file name policy n sz e (fs st) = (Returns (s, policy = DAILY), f')"
    "fileName s = name" "maxSize s = sz"
    "maxNumFiles s = (if policy = MAX_SIZE \<and> sz \<noteq> 0 then max n 2 else 0)"
    by blast
  then show ?thesis by (simp add: new_LogSink_def)
qed

subsection \<open>Assigning files\<close>

text \<open>
  Claim C6. When the file cannot be opened (the path is empty or the system denies it)
  and the call gets as far as constructing a sink, \<open>setLogFile\<close> in either form throws
  the \<open>runtime_error\<close> of \<open>_openLogFile\<close> to its caller and the state is the one before
  the call: no sink was added and every level keeps the sink it had.
\<close>

theorem open_failure_installs_nothing:
  assumes "name = [] \<or> name \<in> denied (fs st)"
  shows "(level \<noteq> NONE \<and> fileName (heap st (sinks st level)) = []
            \<and> (\<forall>l\<in>set levels. fileName (heap st (sinks st l)) \<noteq> name)
          \<longrightarrow> setLogFile level name policy n sz e st
                = (Throws (runtime_error (''Log File cannot be opened: '' @ name)), st))
       \<and> ((\<forall>l\<in>set levels. fileName (heap st (sinks st l)) = [])
          \<longrightarrow> setLogFile_all name policy n sz e st
                = (Throws (runtime_error (''Log File cannot be opened: '' @ name)), st))"
proof (intro conjI impI)
  assume a: "level \<noteq> NONE \<and> fileName (heap st (sinks st level)) = []
            \<and> (\<forall>l\<in>set levels. fileName (heap st (sinks st l)) \<noteq> name)"
  then have "find (\<lambda>l. fileName (heap st (sinks st l)) = name) levels = None"
    by (simp add: find_None_iff)
  with a show "setLogFile level name policy n sz e st
                = (Throws (runtime_error (''Log File cannot be opened: '' @ name)), st)"
    by (simp add: setLogFile_def new_LogSink_denied[OF assms])
next
  assume "\<forall>l\<in>set levels. fileName (heap st (sinks st l)) = []"
  then have "find (\<lambda>l. fileName (heap st (sinks st l)) \<noteq> []) levels = None"
    by (simp add: find_None_iff)
  then show "setLogFile_all name policy n sz e st
                = (Throws (runtime_error (''Log File cannot be opened: '' @ name)), st)"
    by (simp add: setLogFile_all_def new_LogSink_denied[OF assms])
qed

text \<open>At the initial state, with the denied path \<open>bad\<close>.\<close>

theorem open_failure_installs_nothing_witness:
  "setLogFile ERROR ''bad'' MAX_SIZE 4 500 env0 (init_state fs0)
     = (Throws (runtime_error ''Log File cannot be opened: bad''), init_state fs0)
   \<and> setLogFile_all ''bad'' DAILY 0 0 env0 (init_state fs0)
     = (Throws (runtime_error ''Log File cannot be opened: bad''), init_state fs0)"
proof -
  have d: "''bad'' = [] \<or> ''bad'' \<in> denied (fs (init_state fs0))"
    by (simp add: init_state_def fs0_def)
  have a: "ERROR \<noteq> NONE \<and> fileName (heap (init_state fs0) (sinks (init_state fs0) ERROR)) = []
            \<and> (\<forall>l\<in>set levels. fileName (heap (init_state fs0) (sinks (init_state fs0) l)) \<noteq> ''bad'')"
    by (simp add: init_state_def levels_def LogSink_stream_def)
  have b: "\<forall>l\<in>set levels. fileName (heap (init_state fs0) (sinks (init_state fs0) l)) = []"
    by (simp add: init_state_def levels_def LogSink_stream_def)
  from open_failure_installs_nothing[OF d, of ERROR MAX_SIZE 4 500 env0] a
  have 1: "setLogFile ERROR ''bad'' MAX_SIZE 4 500 env0 (init_state fs0)
     = (Throws (runtime_error (''Log File cannot be opened: '' @ ''bad'')), init_state fs0)" by blast
  from open_failure_installs_nothing[OF d, of ERROR DAILY 0 0 env0] b
  have 2: "setLogFile_all ''bad'' DAILY 0 0 env0 (init_state fs0)
     = (Throws (runtime_error (''Log File cannot be opened: '' @ ''bad'')), init_state fs0)" by blast
  from 1 2 show ?thesis by simp
qed

lemma fold_levels [simp]: "fold (\<lambda>l t. t(l := h)) levels t = t(DEBUG := h, INFO := h, ERROR := h, PROFILING := h)"
  by (simp add: levels_def)

text \<open>
  Claim C5. The form of \<open>setLogFile\<close> for all levels throws when one of the four levels
  has a sink with a non-empty file name, and the state is then the one before the call.
  When no level has one and the file can be opened, the call returns, exactly one sink
  is added to the arena (at the handle that was the next free one, every other sink
  staying as it was), it carries the given file name, and all four levels hold it.
\<close>

theorem setLogFile_all_spec:
  "(l \<in> set levels \<and> fileName (heap st (sinks st l)) \<noteq> []
      \<longrightarrow> (\<exists>msg. setLogFile_all name policy n sz e st = (Throws (runtime_error msg), st)))
   \<and> ((\<forall>l\<in>set levels. fileName (heap st (sinks st l)) = []) \<and> name \<noteq> [] \<and> name \<notin> denied (fs st)
      \<longrightarrow> fst (setLogFile_all name policy n sz e st) = Returns ()
          \<and> next_sink (snd (setLogFile_all name policy n sz e st)) = Suc (next_sink st)
          \<and> (\<forall>l\<in>set levels. sinks (snd (setLogFile_all name policy n sz e st)) l = next_sink st)
          \<and> fileName (heap (snd (setLogFile_all name policy n sz e st)) (next_sink st)) = name
          \<and> (\<forall>h. h \<noteq> next_sink st
                \<longrightarrow> heap (snd (setLogFile_all name policy n sz e st)) h = heap st h))"
proof (intro conjI impI)
  assume "l \<in> set levels \<and> fileName (heap st (sinks st l)) \<noteq> []"
  then obtain l' where "find (\<lambda>l. fileName (heap st (sinks st l)) \<noteq> []) levels = Some l'"
    by (cases "find (\<lambda>l. fileName (heap st (sinks st l)) \<noteq> []) levels") (auto simp: find_None_iff)
  then show "\<exists>msg. setLogFile_all name policy n sz e st = (Throws (runtime_error msg), st)"
    by (simp add: setLogFile_all_def)
next
  assume a: "(\<forall>l\<in>set levels. fileName (heap st (sinks st l)) = []) \<and> name \<noteq> [] \<and> name \<notin> denied (fs st)"
  then have f: "find (\<lambda>l. fileName (heap st (sinks st l)) \<noteq> []) levels = None"
    by (simp add: find_None_iff)
  from a new_LogSink_ok[of name st policy n sz e] obtain st1 where
    n: "new_LogSink name policy n sz e st = (Returns (next_sink st), st1)"
       "next_sink st1 = Suc (next_sink st)" "fileName (heap st1 (next_sink st)) = name"
       "\<forall>h. h \<noteq> next_sink st \<longrightarrow> heap st1 h = heap st h"
    by blast
  have r: "setLogFile_all name policy n sz e st
     = (Returns (), st1\<lparr>sinks := (sinks st1)(DEBUG := next_sink st, INFO := next_sink st,
                                            ERROR := next_sink st, PROFILING := next_sink st)\<rparr>)"
    by (simp add: setLogFile_all_def f n)
  show "fst (setLogFile_all name policy n sz e st) = Returns ()" by (simp add: r)
  show "next_sink (snd (setLogFile_all name policy n sz e st)) = Suc (next_sink st)" by (simp add: r n)
  show "\<forall>l\<in>set levels. sinks (snd (setLogFile_all name policy n sz e st)) l = next_sink st"
    by (simp add: r levels_def)
  show "fileName (heap (snd (setLogFile_all name policy n sz e st)) (next_sink st)) = name"
    by (simp add: r n)
  show "\<forall>h. h \<noteq> next_sink st \<longrightarrow> heap (snd (setLogFile_all name policy n sz e st)) h = heap st h"
    by (simp add: r n)
qed

text \<open>Once INFO has a file the call throws and changes nothing; at the initial state it
  gives all four levels the new sink 2.\<close>

theorem setLogFile_all_spec_witness:
  "(\<exists>msg. setLogFile_all ''b.log'' P_NONE 0 0 env0 st_info_file = (Throws (runtime_error msg), st_info_file))
   \<and> fst (setLogFile_all ''a.log'' DAILY 0 0 env0 (init_state fs0)) = Returns ()
   \<and> next_sink (snd (setLogFile_all ''a.log'' DAILY 0 0 env0 (init_state fs0))) = 3
   \<and> sinks (snd (setLogFile_all ''a.log'' DAILY 0 0 env0 (init_state fs0))) DEBUG = 2
   \<and> sinks (snd (setLogFile_all ''a.log'' DAILY 0 0 env0 (init_state fs0))) INFO = 2
   \<and> sinks (snd (setLogFile_all ''a.log'' DAILY 0 0 env0 (init_state fs0))) ERROR = 2
   \<and> sinks (snd (setLogFile_all ''a.log'' DAILY 0 0 env0 (init_state fs0))) PROFILING = 2
   \<and> fileName (heap (snd (setLogFile_all ''a.log'' DAILY 0 0 env0 (init_state fs0))) 2) = ''a.log''"
proof -
  have a: "INFO \<in> set levels \<and> fileName (heap st_info_file (sinks st_info_file INFO)) \<noteq> []"
    by code_simp
  have b: "(\<forall>l\<in>set levels. fileName (heap (init_state fs0) (sinks (init_state fs0) l)) = [])
      \<and> ''a.log'' \<noteq> [] \<and> ''a.log'' \<notin> denied (fs (init_state fs0))"
    by (simp add: init_state_def levels_def LogSink_stream_def fs0_def)
  have n: "next_sink (init_state fs0) = 2" by (simp add: init_state_def)
  from setLogFile_all_spec[of INFO st_info_file "''b.log''" P_NONE 0 0 env0] a
  have 1: "\<exists>msg. setLogFile_all ''b.log'' P_NONE 0 0 env0 st_info_file = (Throws (runtime_error msg), st_info_file)"
    by blast
  from setLogFile_all_spec[of INFO "init_state fs0" "''a.log''" DAILY 0 0 env0] b
  have 2: "fst (setLogFile_all ''a.log'' DAILY 0 0 env0 (init_state fs0)) = Returns ()
          \<and> next_sink (snd (setLogFile_all ''a.log'' DAILY 0 0 env0 (init_state fs0))) = Suc (next_sink (init_state fs0))
          \<and> (\<forall>l\<in>set levels. sinks (snd (setLogFile_all ''a.log'' DAILY 0 0 env0 (init_state fs0))) l = next_sink (init_state fs0))
          \<and> fileName (heap (snd (setLogFile_all ''a.log'' DAILY 0 0 env0 (init_state fs0))) (next_sink (init_state fs0))) = ''a.log''"
    by blast
  from 1 2 show ?thesis by (simp add: n levels_def)
qed

text \<open>
  Claim C3, as amended. For a level of the array, \<open>setLogFile(level, ...)\<close> throws its
  conflict error exactly when the sink of the level has a non-empty file name, whether
  or not that name is the requested one, and the state is then the one before the call.
  When the level has no file and some level's sink carries the requested name, the call
  returns and the level takes over the handle of such a sink; nothing else changes, so
  no sink is constructed.
\<close>

theorem setLogFile_level_spec:
  assumes "level \<noteq> NONE"
  shows "(fileName (heap st (sinks st level)) \<noteq> []
      \<longrightarrow> setLogFile level name policy n sz e st
            = (Throws (runtime_error ''Log file already assigned to this log level''), st))
   \<and> (fileName (heap st (sinks st level)) = []
      \<longrightarrow> fst (setLogFile level name policy n sz e st)
            \<noteq> Throws (runtime_error ''Log file already assigned to this log level''))
   \<and> (fileName (heap st (sinks st level)) = [] \<and> l \<in> set levels
         \<and> fileName (heap st (sinks st l)) = name
      \<longrightarrow> fst (setLogFile level name policy n sz e st) = Returns ()
          \<and> (\<exists>l'\<in>set levels. fileName (heap st (sinks st l')) = name
                \<and> snd (setLogFile level name policy n sz e st)
                    = st\<lparr>sinks := (sinks st)(level := sinks st l')\<rparr>))"
proof (intro conjI impI)
  assume "fileName (heap st (sinks st level)) \<noteq> []"
  with assms show "setLogFile level name policy n sz e st
            = (Throws (runtime_error ''Log file already assigned to this log level''), st)"
    by (simp add: setLogFile_def)
next
  assume a: "fileName (heap st (sinks st level)) = []"
  show "fst (setLogFile level name policy n sz e st)
            \<noteq> Throws (runtime_error ''Log file already assigned to this log level'')"
  proof (cases "find (\<lambda>l. fileName (heap st (sinks st l)) = name) levels")
    case (Some l')
    with a assms show ?thesis by (simp add: setLogFile_def)
  next
    case None
    show ?thesis
    proof (cases "name = [] \<or> name \<in> denied (fs st)")
      case True
      with a assms None show ?thesis
        by (simp add: setLogFile_def new_LogSink_denied)
    next
      case False
      with new_LogSink_ok[of name st policy n sz e] obtain st1 where
        "new_LogSink name policy n sz e st = (Returns (next_sink st), st1)" by blast
      with a assms None show ?thesis by (simp add: setLogFile_def)
    qed
  qed
next
  assume a: "fileName (heap st (sinks st level)) = [] \<and> l \<in> set levels
         \<and> fileName (heap st (sinks st l)) = name"
  then obtain l' where f: "find (\<lambda>l. fileName (heap st (sinks st l)) = name) levels = Some l'"
    by (cases "find (\<lambda>l. fileName (heap st (sinks st l)) = name) levels") (auto simp: find_None_iff)
  then have l': "l' \<in> set levels" "fileName (heap st (sinks st l')) = name"
    by (auto simp: find_Some_iff)
  from a assms f have r: "setLogFile level name policy n sz e st
      = (Returns (), st\<lparr>sinks := (sinks st)(level := sinks st l')\<rparr>)"
    by (simp add: setLogFile_def)
  show "fst (setLogFile level name policy n sz e st) = Returns ()"
    using r by simp
  show "\<exists>l'\<in>set levels. fileName (heap st (sinks st l')) = name
                \<and> snd (setLogFile level name policy n sz e st)
                    = st\<lparr>sinks := (sinks st)(level := sinks st l')\<rparr>"
    using r l' by auto
qed

text \<open>With INFO on \<open>a.log\<close>: giving INFO another file throws, and giving ERROR the file
  \<open>a.log\<close> makes ERROR share the sink of INFO without a new sink.\<close>

theorem setLogFile_level_spec_witness:
  "setLogFile INFO ''b.log'' P_NONE 0 0 env0 st_info_file
      = (Throws (runtime_error ''Log file already assigned to this log level''), st_info_file)
   \<and> fst (setLogFile ERROR ''a.log'' MAX_SIZE 0 0 env0 st_info_file) = Returns ()
   \<and> sinks (snd (setLogFile ERROR ''a.log'' MAX_SIZE 0 0 env0 st_info_file)) ERROR
      = sinks st_info_file INFO
   \<and> next_sink (snd (setLogFile ERROR ''a.log'' MAX_SIZE 0 0 env0 st_info_file))
      = next_sink st_info_file"
proof -
  have a: "fileName (heap st_info_file (sinks st_info_file INFO)) \<noteq> []" by code_simp
  have b: "fileName (heap st_info_file (sinks st_info_file ERROR)) = [] \<and> INFO \<in> set levels
         \<and> fileName (heap st_info_file (sinks st_info_file INFO)) = ''a.log''" by code_simp
  have c: "\<forall>l'\<in>set levels. fileName (heap st_info_file (sinks st_info_file l')) = ''a.log''
      \<longrightarrow> sinks st_info_file l' = sinks st_info_file INFO"
    by code_simp
  have i: "INFO \<noteq> NONE" and e: "ERROR \<noteq> NONE" by simp_all
  from setLogFile_level_spec[OF i, where st=st_info_file and name="''b.log''" and policy=P_NONE
      and n=0 and sz=0 and e=env0] a
  have 1: "setLogFile INFO ''b.log'' P_NONE 0 0 env0 st_info_file
      = (Throws (runtime_error ''Log file already assigned to this log level''), st_info_file)"
    by blast
  from setLogFile_level_spec[OF e, where st=st_info_file and name="''a.log''" and l=INFO
      and policy=MAX_SIZE and n=0 and sz=0 and e=env0] b
  have 2: "fst (setLogFile ERROR ''a.log'' MAX_SIZE 0 0 env0 st_info_file) = Returns ()
          \<and> (\<exists>l'\<in>set levels. fileName (heap st_info_file (sinks st_info_file l')) = ''a.log''
                \<and> snd (setLogFile ERROR ''a.log'' MAX_SIZE 0 0 env0 st_info_file)
                    = st_info_file\<lparr>sinks := (sinks st_info_file)(ERROR := sinks st_info_file l')\<rparr>)"
    by blast
  then obtain l' where l': "l' \<in> set levels"
     "fileName (heap st_info_file (sinks st_info_file l')) = ''a.log''"
     "snd (setLogFile ERROR ''a.log'' MAX_SIZE 0 0 env0 st_info_file)
                    = st_info_file\<lparr>sinks := (sinks st_info_file)(ERROR := sinks st_info_file l')\<rparr>"
    by blast
  with c have "sinks st_info_file l' = sinks st_info_file INFO" by blast
  with l' 1 2 show ?thesis by simp
qed

text \<open>Claim C3 as the spec states it fails: INFO has the file \<open>a.log\<close>, the requested
  path is the same \<open>a.log\<close>, which is the path of an existing sink, and still the call
  throws the conflict error instead of reusing the sink.\<close>

theorem reassign_same_file_counterexample:
  "fileName (heap st_info_file (sinks st_info_file INFO)) = ''a.log''
   \<and> setLogFile INFO ''a.log'' MAX_SIZE 4 500 env0 st_info_file
      = (Throws (runtime_error ''Log file already assigned to this log level''), st_info_file)"
proof -
  have a: "fileName (heap st_info_file (sinks st_info_file INFO)) = ''a.log''" by code_simp
  then show ?thesis by (simp add: setLogFile_def)
qed

subsection \<open>Streams\<close>

lemma stream_put_fields [simp]:
  "timers (stream_put h t k st) = timers st"
  "sinks (stream_put h t k st) = sinks st"
  "next_sink (stream_put h t k st) = next_sink st"
  "daily_threads (stream_put h t k st) = daily_threads st"
  by (simp_all add: stream_put_def set_sink_def split: ostream.splits)

lemma stream_flush_fields [simp]:
  "timers (stream_flush h st) = timers st"
  "sinks (stream_flush h st) = sinks st"
  "next_sink (stream_flush h st) = next_sink st"
  "cout (stream_flush h st) = cout st"
  "cerr (stream_flush h st) = cerr st"
  "daily_threads (stream_flush h st) = daily_threads st"
  by (simp_all add: stream_flush_def set_sink_def split: ostream.splits option.splits)

lemma stream_put_timers_upd:
  "stream_put h t k (st\<lparr>timers := ts\<rparr>) = (stream_put h t k st)\<lparr>timers := ts\<rparr>"
  by (simp add: stream_put_def set_sink_def split: ostream.splits option.splits)

lemma seen_timers_upd [simp]: "seen h (st\<lparr>timers := ts\<rparr>) = seen h st"
  by (simp add: seen_def split: ostream.splits)

lemma writable_timers_upd [simp]: "writable h (st\<lparr>timers := ts\<rparr>) = writable h st"
  by (simp add: writable_def split: ostream.splits)

lemma seen_put: "writable h st \<Longrightarrow> seen h (stream_put h t k st) = seen h st @ t"
  by (auto simp: seen_def writable_def stream_put_def set_sink_def fs_exists_def
      simp del: take_append drop_append split: ostream.splits)

lemma writable_put: "writable h st \<Longrightarrow> writable h (stream_put h t k st)"
  by (auto simp: writable_def stream_put_def set_sink_def fs_exists_def split: ostream.splits)

lemma seen_flush: "writable h st \<Longrightarrow> seen h (stream_flush h st) = seen h st"
  by (auto simp: seen_def writable_def stream_flush_def set_sink_def fs_exists_def split: ostream.splits)


subsection \<open>Timers\<close>

lemma startTimer_eq:
  "startTimer func line e st =
     (Returns (), (stream_put (sinks st PROFILING) (started_line (Suc (length (timers st))) func line)
                     (spill e) st)
                    \<lparr>timers := timers st @ [now_ticks e]\<rparr>)"
  by (simp add: startTimer_def started_line_def Let_def)

lemma stopTimer_eq:
  "timers st = ts @ [t0] \<Longrightarrow>
   stopTimer u unit func line e st =
     (Returns (), (stream_put (sinks st PROFILING)
                     (stopped_line (Suc (length ts)) func line (duration_cast u (now_ticks e - t0)) unit)
                     (spill e) st)
                    \<lparr>timers := ts\<rparr>)"
  by (simp add: stopTimer_def stopped_line_def Let_def)

lemma stopTimer_empty:
  "timers st = [] \<Longrightarrow>
   stopTimer u unit func line e st =
     (Returns (), stream_flush (sinks st PROFILING)
                    (stream_put (sinks st PROFILING) nl 0
                       (stream_put (sinks st PROFILING) ''Timer not started!'' 0 st)))"
  by (simp add: stopTimer_def Let_def)

lemma startTimer_seen:
  assumes "writable (sinks st PROFILING) st"
  shows "seen (sinks st PROFILING) (snd (startTimer func line e st))
           = seen (sinks st PROFILING) st @ started_line (Suc (length (timers st))) func line"
    and "writable (sinks st PROFILING) (snd (startTimer func line e st))"
    and "timers (snd (startTimer func line e st)) = timers st @ [now_ticks e]"
    and "sinks (snd (startTimer func line e st)) = sinks st"
  using assms by (simp_all add: startTimer_eq seen_put writable_put)

lemma stopTimer_seen:
  assumes "writable (sinks st PROFILING) st" "timers st = ts @ [t0]"
  shows "seen (sinks st PROFILING) (snd (stopTimer u unit func line e st))
           = seen (sinks st PROFILING) st
             @ stopped_line (Suc (length ts)) func line (duration_cast u (now_ticks e - t0)) unit"
    and "writable (sinks st PROFILING) (snd (stopTimer u unit func line e st))"
    and "timers (snd (stopTimer u unit func line e st)) = ts"
    and "sinks (snd (stopTimer u unit func line e st)) = sinks st"
  using assms by (simp_all add: stopTimer_eq seen_put writable_put)

text \<open>
  Claim C9. When the timer stack is not empty, \<open>stopTimer\<close> returns, sends the STOPPED
  line to the stream of the PROFILING sink, with the depth of the stack as the number
  and the time elapsed since the last start, cast to the unit, as the duration, and
  pops that start. When the stack is empty it returns as well and sends
  \<open>Timer not started!\<close>, a newline and a flush. Three starts followed by three stops
  leave the stack as it was and, on a stream that takes text, add the three STARTED
  lines and then the STOPPED lines measured against the third, the second and the
  first start, in that order.
\<close>

theorem timers_lifo:
  "(timers st \<noteq> [] \<longrightarrow>
      stopTimer u unit func line e st =
        (Returns (),
         (stream_put (sinks st PROFILING)
            (stopped_line (length (timers st)) func line
               (duration_cast u (now_ticks e - last (timers st))) unit) (spill e) st)
           \<lparr>timers := butlast (timers st)\<rparr>))
   \<and> (timers st = [] \<longrightarrow>
      stopTimer u unit func line e st =
        (Returns (),
         stream_flush (sinks st PROFILING)
           (stream_put (sinks st PROFILING) nl 0
              (stream_put (sinks st PROFILING) ''Timer not started!'' 0 st))))
   \<and> (writable (sinks st PROFILING) st \<longrightarrow>
        seen (sinks st PROFILING)
          (run [E_startTimer f1 l1 e1, E_startTimer f2 l2 e2, E_startTimer f3 l3 e3,
                E_stopTimer u4 n4 f4 l4 e4, E_stopTimer u5 n5 f5 l5 e5,
                E_stopTimer u6 n6 f6 l6 e6] st)
        = seen (sinks st PROFILING) st
          @ started_line (length (timers st) + 1) f1 l1
          @ started_line (length (timers st) + 2) f2 l2
          @ started_line (length (timers st) + 3) f3 l3
          @ stopped_line (length (timers st) + 3) f4 l4 (duration_cast u4 (now_ticks e4 - now_ticks e3)) n4
          @ stopped_line (length (timers st) + 2) f5 l5 (duration_cast u5 (now_ticks e5 - now_ticks e2)) n5
          @ stopped_line (length (timers st) + 1) f6 l6 (duration_cast u6 (now_ticks e6 - now_ticks e1)) n6
      \<and> timers
          (run [E_startTimer f1 l1 e1, E_startTimer f2 l2 e2, E_startTimer f3 l3 e3,
                E_stopTimer u4 n4 f4 l4 e4, E_stopTimer u5 n5 f5 l5 e5,
                E_stopTimer u6 n6 f6 l6 e6] st) = timers st)
   \<and> (writable (sinks st PROFILING) st \<and> timers st = [] \<longrightarrow>
        fst (stopTimer u unit func line e st) = Returns ()
      \<and> seen (sinks st PROFILING) (snd (stopTimer u unit func line e st))
          = seen (sinks st PROFILING) st @ ''Timer not started!'' @ nl
      \<and> timers (snd (stopTimer u unit func line e st)) = [])"
proof (intro conjI impI)
  assume "timers st \<noteq> []"
  then have "timers st = butlast (timers st) @ [last (timers st)]" by simp
  from stopTimer_eq[OF this, of u unit func line e] \<open>timers st \<noteq> []\<close>
  show "stopTimer u unit func line e st =
        (Returns (),
         (stream_put (sinks st PROFILING)
            (stopped_line (length (timers st)) func line
               (duration_cast u (now_ticks e - last (timers st))) unit) (spill e) st)
           \<lparr>timers := butlast (timers st)\<rparr>)"
    by (simp add: Suc_pred)
next
  assume "timers st = []"
  then show "stopTimer u unit func line e st =
        (Returns (),
         stream_flush (sinks st PROFILING)
           (stream_put (sinks st PROFILING) nl 0
              (stream_put (sinks st PROFILING) ''Timer not started!'' 0 st)))"
    by (rule stopTimer_empty)
next
  assume w: "writable (sinks st PROFILING) st"
  let ?h = "sinks st PROFILING"
  define s1 where "s1 = snd (startTimer f1 l1 e1 st)"
  define s2 where "s2 = snd (startTimer f2 l2 e2 s1)"
  define s3 where "s3 = snd (startTimer f3 l3 e3 s2)"
  define s4 where "s4 = snd (stopTimer u4 n4 f4 l4 e4 s3)"
  define s5 where "s5 = snd (stopTimer u5 n5 f5 l5 e5 s4)"
  define s6 where "s6 = snd (stopTimer u6 n6 f6 l6 e6 s5)"
  have r: "run [E_startTimer f1 l1 e1, E_startTimer f2 l2 e2, E_startTimer f3 l3 e3,
                E_stopTimer u4 n4 f4 l4 e4, E_stopTimer u5 n5 f5 l5 e5,
                E_stopTimer u6 n6 f6 l6 e6] st = s6"
    by (simp add: s1_def s2_def s3_def s4_def s5_def s6_def)
  note a1 = startTimer_seen[OF w, of f1 l1 e1, folded s1_def]
  have w1: "writable (sinks s1 PROFILING) s1" using a1 by simp
  note a2 = startTimer_seen[OF w1, of f2 l2 e2, folded s2_def]
  have w2: "writable (sinks s2 PROFILING) s2" using a2 by simp
  note a3 = startTimer_seen[OF w2, of f3 l3 e3, folded s3_def]
  have w3: "writable (sinks s3 PROFILING) s3" using a3 by simp
  have t3: "timers s3 = (timers st @ [now_ticks e1, now_ticks e2]) @ [now_ticks e3]"
    using a1 a2 a3 by simp
  note a4 = stopTimer_seen[OF w3 t3, of u4 n4 f4 l4 e4, folded s4_def]
  have w4: "writable (sinks s4 PROFILING) s4" using a4 by simp
  have t4: "timers s4 = (timers st @ [now_ticks e1]) @ [now_ticks e2]" using a4 by simp
  note a5 = stopTimer_seen[OF w4 t4, of u5 n5 f5 l5 e5, folded s5_def]
  have w5: "writable (sinks s5 PROFILING) s5" using a5 by simp
  have t5: "timers s5 = timers st @ [now_ticks e1]" using a5 by simp
  note a6 = stopTimer_seen[OF w5 t5, of u6 n6 f6 l6 e6, folded s6_def]
  have hs: "sinks s1 = sinks st" "sinks s2 = sinks st" "sinks s3 = sinks st"
    "sinks s4 = sinks st" "sinks s5 = sinks st"
    using a1 a2 a3 a4 a5 by simp_all
  show "seen (sinks st PROFILING)
          (run [E_startTimer f1 l1 e1, E_startTimer f2 l2 e2, E_startTimer f3 l3 e3,
                E_stopTimer u4 n4 f4 l4 e4, E_stopTimer u5 n5 f5 l5 e5,
                E_stopTimer u6 n6 f6 l6 e6] st)
        = seen (sinks st PROFILING) st
          @ started_line (length (timers st) + 1) f1 l1
          @ started_line (length (timers st) + 2) f2 l2
          @ started_line (length (timers st) + 3) f3 l3
          @ stopped_line (length (timers st) + 3) f4 l4 (duration_cast u4 (now_ticks e4 - now_ticks e3)) n4
          @ stopped_line (length (timers st) + 2) f5 l5 (duration_cast u5 (now_ticks e5 - now_ticks e2)) n5
          @ stopped_line (length (timers st) + 1) f6 l6 (duration_cast u6 (now_ticks e6 - now_ticks e1)) n6"
    unfolding r using a1(1,3) a2(1,3) a3(1) a4(1) a5(1) a6(1) hs
    by (simp add: numeral_3_eq_3 numeral_2_eq_2)
  show "timers
          (run [E_startTimer f1 l1 e1, E_startTimer f2 l2 e2, E_startTimer f3 l3 e3,
                E_stopTimer u4 n4 f4 l4 e4, E_stopTimer u5 n5 f5 l5 e5,
                E_stopTimer u6 n6 f6 l6 e6] st) = timers st"
    unfolding r using a6(3) by simp
next
  assume a: "writable (sinks st PROFILING) st \<and> timers st = []"
  then have e: "stopTimer u unit func line e st =
        (Returns (), stream_flush (sinks st PROFILING)
                    (stream_put (sinks st PROFILING) nl 0
                       (stream_put (sinks st PROFILING) ''Timer not started!'' 0 st)))"
    by (simp add: stopTimer_empty)
  show "fst (stopTimer u unit func line e st) = Returns ()" by (simp add: e)
  show "seen (sinks st PROFILING) (snd (stopTimer u unit func line e st))
          = seen (sinks st PROFILING) st @ ''Timer not started!'' @ nl"
    using a by (simp add: e seen_flush seen_put writable_put)
  show "timers (snd (stopTimer u unit func line e st)) = []"
    using a by (simp add: e)
qed

text \<open>At the initial state, where PROFILING writes to \<open>std::cout\<close> (sink 0): starts at
  ticks 1000, 2000 and 4000, stops at 8000, 16000 and 32000, in microseconds.\<close>

theorem timers_lifo_witness:
  "seen 0 (run [E_startTimer ''f'' 1 (env0\<lparr>now_ticks := 1000\<rparr>),
                E_startTimer ''g'' 2 (env0\<lparr>now_ticks := 2000\<rparr>),
                E_startTimer ''h'' 3 (env0\<lparr>now_ticks := 4000\<rparr>),
                E_stopTimer microseconds ''microseconds'' ''h'' 4 (env0\<lparr>now_ticks := 8000\<rparr>),
                E_stopTimer microseconds ''microseconds'' ''g'' 5 (env0\<lparr>now_ticks := 16000\<rparr>),
                E_stopTimer microseconds ''microseconds'' ''f'' 6 (env0\<lparr>now_ticks := 32000\<rparr>)]
             (init_state fs0))
     = started_line 1 ''f'' 1 @ started_line 2 ''g'' 2 @ started_line 3 ''h'' 3
       @ stopped_line 3 ''h'' 4 4 ''microseconds''
       @ stopped_line 2 ''g'' 5 14 ''microseconds''
       @ stopped_line 1 ''f'' 6 31 ''microseconds''
   \<and> fst (stopTimer seconds ''seconds'' ''f'' 7 env0 (init_state fs0)) = Returns ()
   \<and> seen 0 (snd (stopTimer seconds ''seconds'' ''f'' 7 env0 (init_state fs0)))
     = ''Timer not started!'' @ nl"
proof -
  have w: "writable (sinks (init_state fs0) PROFILING) (init_state fs0)" by code_simp
  have i: "sinks (init_state fs0) PROFILING = 0" "timers (init_state fs0) = []"
    "seen 0 (init_state fs0) = []"
    by (simp_all add: init_state_def seen_def LogSink_stream_def)
  have d: "duration_cast microseconds (8000 - 4000) = 4"
    "duration_cast microseconds (16000 - 2000) = 14"
    "duration_cast microseconds (32000 - 1000) = 31"
    by (simp_all add: duration_cast_def ticks_per_def)
  note t = timers_lifo[where st="init_state fs0" and u=seconds and unit="''seconds''"
      and func="''f''" and line=7 and e=env0
      and ?f1.0="''f''" and ?l1.0=1 and ?e1.0="env0\<lparr>now_ticks := 1000\<rparr>"
      and ?f2.0="''g''" and ?l2.0=2 and ?e2.0="env0\<lparr>now_ticks := 2000\<rparr>"
      and ?f3.0="''h''" and ?l3.0=3 and ?e3.0="env0\<lparr>now_ticks := 4000\<rparr>"
      and ?u4.0=microseconds and ?n4.0="''microseconds''" and ?f4.0="''h''" and ?l4.0=4
      and ?e4.0="env0\<lparr>now_ticks := 8000\<rparr>"
      and ?u5.0=microseconds and ?n5.0="''microseconds''" and ?f5.0="''g''" and ?l5.0=5
      and ?e5.0="env0\<lparr>now_ticks := 16000\<rparr>"
      and ?u6.0=microseconds and ?n6.0="''microseconds''" and ?f6.0="''f''" and ?l6.0=6
      and ?e6.0="env0\<lparr>now_ticks := 32000\<rparr>"]
  note c3 = t[THEN conjunct2, THEN conjunct2, THEN conjunct1, rule_format, OF w]
  note c4 = t[THEN conjunct2, THEN conjunct2, THEN conjunct2, rule_format, OF conjI[OF w i(2)]]
  from c3 c4 i d show ?thesis by (simp add: numeral_2_eq_2)
qed

subsection \<open>The fields that only the constructor sets\<close>

lemma shape_other_fields [simp]:
  "shape (st\<lparr>sinks := a\<rparr>) = shape st"
  "shape (st\<lparr>timers := b\<rparr>) = shape st"
  "shape (st\<lparr>fs := c\<rparr>) = shape st"
  "shape (st\<lparr>cout := d\<rparr>) = shape st"
  "shape (st\<lparr>cerr := d\<rparr>) = shape st"
  "shape (st\<lparr>strbuf := d\<rparr>) = shape st"
  "shape (st\<lparr>daily_threads := g\<rparr>) = shape st"
  "shape (st\<lparr>debug := m\<rparr>) = shape st"
  "shape (st\<lparr>info := m\<rparr>) = shape st"
  "shape (st\<lparr>error := m\<rparr>) = shape st"
  "shape (st\<lparr>getDebugStream := m\<rparr>) = shape st"
  "shape (st\<lparr>getInfoStream := m\<rparr>) = shape st"
  "shape (st\<lparr>getErrorStream := m\<rparr>) = shape st"
  by (simp_all add: shape_def)

lemma shape_set_sink:
  "fileName (g (heap st h)) = fileName (heap st h) \<Longrightarrow>
   maxSize (g (heap st h)) = maxSize (heap st h) \<Longrightarrow>
   maxNumFiles (g (heap st h)) = maxNumFiles (heap st h) \<Longrightarrow>
   shape (set_sink h g st) = shape st"
  by (auto simp: shape_def set_sink_def)

lemma shape_set_sink_simps [simp]:
  "shape (set_sink h (\<lambda>s. s\<lparr>stream := x\<rparr>) st) = shape st"
  "shape (set_sink h (\<lambda>s. s\<lparr>lsm := b\<rparr>) st) = shape st"
  "shape (set_sink h (\<lambda>s. s\<lparr>stream := x, creationDate := d\<rparr>) st) = shape st"
  "shape (set_sink h (\<lambda>s. s\<lparr>stream := x, creationDate := d, lsm := b\<rparr>) st) = shape st"
  by (simp_all add: shape_set_sink)

lemma shape_and_then:
  "shape (snd m) = c \<Longrightarrow> (\<And>x s. shape s = c \<Longrightarrow> shape (snd (k x s)) = c) \<Longrightarrow>
   shape (snd (and_then m k)) = c"
  by (cases m; cases "fst m") (auto simp: and_then_def split: outcome.splits)

lemma shape_stream_put [simp]: "shape (stream_put h t k st) = shape st"
  by (simp add: stream_put_def split: ostream.splits)

lemma shape_stream_flush [simp]: "shape (stream_flush h st) = shape st"
  by (simp add: stream_flush_def split: ostream.splits)

lemma shape_stream_close [simp]: "shape (snd (stream_close h st)) = shape st"
  by (simp add: stream_close_def)

lemma shape_sizeRotation [simp]: "shape (snd (sizeRotation h e st)) = shape st"
  unfolding sizeRotation_def Let_def
  by (auto split: sum.splits prod.splits intro!: shape_and_then)

lemma shape_write [simp]: "shape (snd (Logger_write level trace e st)) = shape st"
  unfolding Logger_write_def Let_def
  by (auto split: option.splits intro!: shape_and_then)

lemma shape_writeOut [simp]: "shape (snd (writeOut level e st)) = shape st"
  unfolding writeOut_def Let_def
  by (auto split: option.splits intro!: shape_and_then)

lemma shape_getStream [simp]: "shape (snd (getStream level e st)) = shape st"
  unfolding getStream_def by (auto intro!: shape_and_then)

lemma shape_ptr_put [simp]: "shape (ptr_put p t k st) = shape st"
  by (simp add: ptr_put_def split: stream_ptr.splits)

lemma shape_calls [simp]:
  "shape (snd (call_debug trace e st)) = shape st"
  "shape (snd (call_info trace e st)) = shape st"
  "shape (snd (call_error trace e st)) = shape st"
  "shape (snd (call_getDebugStream e st)) = shape st"
  "shape (snd (call_getInfoStream e st)) = shape st"
  "shape (snd (call_getErrorStream e st)) = shape st"
  by (simp_all add: call_debug_def call_info_def call_error_def call_getDebugStream_def
      call_getInfoStream_def call_getErrorStream_def split: DualMode.splits)

lemma shape_setLevel [simp]: "shape (setLevel level st) = shape st"
  by (simp add: setLevel_def split: LogLevel.splits)

lemma shape_dailyRotation_turn [simp]: "shape (snd (dailyRotation_turn h e st)) = shape st"
  unfolding dailyRotation_turn_def Let_def
  by (auto split: sum.splits prod.splits intro!: shape_and_then)

lemma shape_timers [simp]:
  "shape (snd (startTimer func line e st)) = shape st"
  "shape (snd (stopTimer u unit func line e st)) = shape st"
  by (simp_all add: startTimer_def stopTimer_def Let_def)

lemma new_LogSink_cases:
  "new_LogSink name policy n sz e st
     = (Throws (runtime_error (''Log File cannot be opened: '' @ name)), st)
   \<or> (\<exists>st1. new_LogSink name policy n sz e st = (Returns (next_sink st), st1)
        \<and> next_sink st1 = Suc (next_sink st)
        \<and> sinks st1 = sinks st
        \<and> fileName (heap st1 (next_sink st)) = name
        \<and> maxSize (heap st1 (next_sink st)) = sz
        \<and> maxNumFiles (heap st1 (next_sink st))
            = (if policy = MAX_SIZE \<and> sz \<noteq> 0 then max n 2 else 0)
        \<and> (\<forall>h. h \<noteq> next_sink st \<longrightarrow> heap st1 h = heap st h))"
proof (cases "name = [] \<or> name \<in> denied (fs st)")
  case True
  then show ?thesis by (simp add: new_LogSink_denied)
next
  case False
  then show ?thesis using new_LogSink_ok[of name st policy n sz e] by blast
qed

lemma shape_new_LogSink:
  "next_sink st \<le> next_sink (snd (new_LogSink name policy n sz e st))
   \<and> (\<forall>h<next_sink st. snd (shape (snd (new_LogSink name policy n sz e st))) h = snd (shape st) h)"
  using new_LogSink_cases[of name policy n sz e st]
  by (auto simp: shape_def)

lemma shape_setLogFile:
  "next_sink st \<le> next_sink (snd (setLogFile level name policy n sz e st))
   \<and> (\<forall>h<next_sink st. snd (shape (snd (setLogFile level name policy n sz e st))) h = snd (shape st) h)"
  using new_LogSink_cases[of name policy n sz e st]
  by (auto simp: setLogFile_def shape_def split: option.splits)

lemma shape_setLogFile_all:
  "next_sink st \<le> next_sink (snd (setLogFile_all name policy n sz e st))
   \<and> (\<forall>h<next_sink st. snd (shape (snd (setLogFile_all name policy n sz e st))) h = snd (shape st) h)"
  using new_LogSink_cases[of name policy n sz e st]
  by (auto simp: setLogFile_all_def shape_def split: option.splits)

lemma shape_next_sink: "shape st' = shape st \<Longrightarrow> next_sink st' = next_sink st"
  by (simp add: shape_def)

lemma shape_same_grows:
  "shape st' = shape st \<Longrightarrow>
   next_sink st \<le> next_sink st' \<and> (\<forall>h<next_sink st. snd (shape st') h = snd (shape st) h)"
  by (simp add: shape_def)

lemma shape_step:
  "next_sink st \<le> next_sink (snd (step ev st))
   \<and> (\<forall>h<next_sink st. snd (shape (snd (step ev st))) h = snd (shape st) h)"
proof (cases ev)
  case (E_setLogFile level name policy n sz e)
  then show ?thesis using shape_setLogFile by simp
next
  case (E_setLogFile_all name policy n sz e)
  then show ?thesis using shape_setLogFile_all by simp
next
  case (E_debugOut t e)
  have "shape (snd (step ev st)) = shape st"
    unfolding E_debugOut step.simps by (rule shape_and_then) simp_all
  then show ?thesis by (rule shape_same_grows)
next
  case (E_infoOut t e)
  have "shape (snd (step ev st)) = shape st"
    unfolding E_infoOut step.simps by (rule shape_and_then) simp_all
  then show ?thesis by (rule shape_same_grows)
next
  case (E_errorOut t e)
  have "shape (snd (step ev st)) = shape st"
    unfolding E_errorOut step.simps by (rule shape_and_then) simp_all
  then show ?thesis by (rule shape_same_grows)
qed (rule shape_same_grows; simp)+

lemma shape_run:
  "next_sink st \<le> next_sink (run evs st)
   \<and> (\<forall>h<next_sink st. snd (shape (run evs st)) h = snd (shape st) h)"
proof (induction evs arbitrary: st)
  case Nil
  show ?case by simp
next
  case (Cons ev evs)
  let ?s = "snd (step ev st)"
  from shape_step[of st ev] have 1: "next_sink st \<le> next_sink ?s"
    and 2: "\<forall>h<next_sink st. snd (shape ?s) h = snd (shape st) h" by simp_all
  from Cons.IH[of ?s] have 3: "next_sink ?s \<le> next_sink (run evs ?s)"
    and 4: "\<forall>h<next_sink ?s. snd (shape (run evs ?s)) h = snd (shape ?s) h" by simp_all
  from 1 2 3 4 show ?case by auto
qed

text \<open>
  Claim C8. When \<open>setLogFile\<close>, in either form, is called with the policy \<open>MAX_SIZE\<close> and
  a size limit other than zero and constructs a sink, the \<open>maxNumFiles\<close> stored in that
  sink is the larger of the requested number and 2, so at least 2; and after any run of
  events that follows (calls of the logger, turns of rotation threads, changes of the
  file system from outside) the sink still stores that number.
\<close>

theorem maxNumFiles_lifetime:
  assumes ev: "ev = E_setLogFile level name MAX_SIZE n sz e \<or> ev = E_setLogFile_all name MAX_SIZE n sz e"
    and sz: "sz \<noteq> 0"
    and st: "step ev st = (Returns (), st1)"
    and new: "next_sink st1 \<noteq> next_sink st"
  shows "fileName (heap st1 (next_sink st)) = name
       \<and> maxNumFiles (heap st1 (next_sink st)) = max n 2
       \<and> maxNumFiles (heap (run evs st1) (next_sink st)) = max n 2
       \<and> 2 \<le> maxNumFiles (heap (run evs st1) (next_sink st))"
proof -
  from new_LogSink_cases[of name MAX_SIZE n sz e st]
  have c: "fileName (heap st1 (next_sink st)) = name
       \<and> maxNumFiles (heap st1 (next_sink st)) = max n 2 \<and> next_sink st1 = Suc (next_sink st)"
  proof
    assume t: "new_LogSink name MAX_SIZE n sz e st
      = (Throws (runtime_error (''Log File cannot be opened: '' @ name)), st)"
    from ev st new show ?thesis
      by (auto simp: setLogFile_def setLogFile_all_def t split: if_splits option.splits)
  next
    assume "\<exists>st2. new_LogSink name MAX_SIZE n sz e st = (Returns (next_sink st), st2)
        \<and> next_sink st2 = Suc (next_sink st)
        \<and> sinks st2 = sinks st
        \<and> fileName (heap st2 (next_sink st)) = name
        \<and> maxSize (heap st2 (next_sink st)) = sz
        \<and> maxNumFiles (heap st2 (next_sink st))
            = (if MAX_SIZE = MAX_SIZE \<and> sz \<noteq> 0 then max n 2 else 0)
        \<and> (\<forall>h. h \<noteq> next_sink st \<longrightarrow> heap st2 h = heap st h)"
    then obtain st2 where r: "new_LogSink name MAX_SIZE n sz e st = (Returns (next_sink st), st2)"
      "next_sink st2 = Suc (next_sink st)" "fileName (heap st2 (next_sink st)) = name"
      "maxNumFiles (heap st2 (next_sink st)) = max n 2"
      using sz by auto
    from ev st new r show ?thesis
      by (auto simp: setLogFile_def setLogFile_all_def split: if_splits option.splits)
  qed
  then have lt: "next_sink st < next_sink st1" by simp
  from shape_run[of st1 evs] lt
  have "snd (shape (run evs st1)) (next_sink st) = snd (shape st1) (next_sink st)" by blast
  then have k: "maxNumFiles (heap (run evs st1) (next_sink st)) = maxNumFiles (heap st1 (next_sink st))"
    by (simp add: shape_def)
  have "(2::8 word) \<le> max n 2" by simp
  with c k show ?thesis by simp
qed

text \<open>INFO asks for one file of 500 bytes at most: the sink, handle 2, stores 2, and still
  does after writes, changes of the level and the loss of its file.\<close>

theorem maxNumFiles_lifetime_witness:
  "maxNumFiles (heap (snd (step (E_setLogFile INFO ''a.log'' MAX_SIZE 1 500 env0) (init_state fs0))) 2) = 2
   \<and> maxNumFiles
        (heap (run [E_info ''hello'' env0, E_setLevel ERROR, E_error ''x'' env0, E_outside fs0,
                    E_setLevel DEBUG, E_info ''y'' env0]
                 (snd (step (E_setLogFile INFO ''a.log'' MAX_SIZE 1 500 env0) (init_state fs0)))) 2) = 2"
proof -
  let ?ev = "E_setLogFile INFO ''a.log'' MAX_SIZE 1 500 env0"
  let ?st1 = "snd (step ?ev (init_state fs0))"
  have a: "?ev = E_setLogFile INFO ''a.log'' MAX_SIZE 1 500 env0
         \<or> ?ev = E_setLogFile_all ''a.log'' MAX_SIZE 1 500 env0" by simp
  have z: "(500::64 word) \<noteq> 0" by simp
  have f: "fst (step ?ev (init_state fs0)) = Returns ()" by code_simp
  have s: "step ?ev (init_state fs0) = (Returns (), ?st1)"
    using f by (metis prod.collapse)
  have n: "next_sink ?st1 \<noteq> next_sink (init_state fs0)" by code_simp
  have i: "next_sink (init_state fs0) = 2" by (simp add: init_state_def)
  have m: "max (1::8 word) 2 = 2" by simp
  from maxNumFiles_lifetime[OF a z s n,
      of "[E_info ''hello'' env0, E_setLevel ERROR, E_error ''x'' env0, E_outside fs0,
           E_setLevel DEBUG, E_info ''y'' env0]"]
  show ?thesis unfolding i m by simp
qed

subsection \<open>Numbers print differently\<close>

lemma digit_inj: "a < 10 \<Longrightarrow> b < 10 \<Longrightarrow> digit a = digit b \<Longrightarrow> a = b"
proof -
  assume a: "a < 10" and b: "b < 10" and e: "digit a = digit b"
  have 1: "of_char (digit a) = (48 + a :: nat)" using a by (simp add: digit_def)
  have 2: "of_char (digit b) = (48 + b :: nat)" using b by (simp add: digit_def)
  from e have "(of_char (digit a) :: nat) = of_char (digit b)" by (rule arg_cong)
  then have "48 + a = 48 + b" unfolding 1 2 .
  then show "a = b" by arith
qed

lemma digit_not_minus: "d < 10 \<Longrightarrow> digit d \<noteq> CHR ''-''"
proof
  assume d: "d < 10" and e: "digit d = CHR ''-''"
  have 1: "of_char (digit d) = (48 + d :: nat)" using d by (simp add: digit_def)
  have 2: "of_char (CHR ''-'') = (45 :: nat)" by simp
  from e have "(of_char (digit d) :: nat) = of_char (CHR ''-'')" by (rule arg_cong)
  then have "48 + d = 45" unfolding 1 2 .
  then show False by arith
qed

lemma to_string_nat_nonempty: "to_string_nat n \<noteq> []"
  by (subst to_string_nat.simps) simp

lemma to_string_nat_inj: "to_string_nat m = to_string_nat n \<Longrightarrow> m = n"
proof (induction m arbitrary: n rule: to_string_nat.induct)
  case (1 m)
  show ?case
  proof (cases "m < 10")
    case True
    then have m: "to_string_nat m = [digit m]" by (subst to_string_nat.simps) simp
    show ?thesis
    proof (cases "n < 10")
      case True
      then have "to_string_nat n = [digit n]" by (subst to_string_nat.simps) simp
      with m "1.prems" have "digit m = digit n" by simp
      with \<open>m < 10\<close> True show ?thesis by (rule digit_inj)
    next
      case False
      then have "to_string_nat n = to_string_nat (n div 10) @ [digit (n mod 10)]"
        by (subst to_string_nat.simps) simp
      with m "1.prems" to_string_nat_nonempty[of "n div 10"] show ?thesis by simp
    qed
  next
    case False
    then have m: "to_string_nat m = to_string_nat (m div 10) @ [digit (m mod 10)]"
      by (subst to_string_nat.simps) simp
    show ?thesis
    proof (cases "n < 10")
      case True
      then have "to_string_nat n = [digit n]" by (subst to_string_nat.simps) simp
      with m "1.prems" to_string_nat_nonempty[of "m div 10"] show ?thesis by simp
    next
      case n: False
      then have "to_string_nat n = to_string_nat (n div 10) @ [digit (n mod 10)]"
        by (subst to_string_nat.simps) simp
      with m "1.prems" have e: "to_string_nat (m div 10) = to_string_nat (n div 10)"
        and d: "digit (m mod 10) = digit (n mod 10)" by simp_all
      from "1.IH"[OF False e] have q: "m div 10 = n div 10" .
      have r: "m mod 10 = n mod 10" by (rule digit_inj[OF _ _ d]) simp_all
      from q r show ?thesis by (metis div_mult_mod_eq)
    qed
  qed
qed

lemma to_string_nat_hd: "hd (to_string_nat n) \<noteq> CHR ''-''"
proof (induction n rule: to_string_nat.induct)
  case (1 n)
  show ?case
  proof (cases "n < 10")
    case True
    then show ?thesis by (subst to_string_nat.simps) (simp add: digit_not_minus)
  next
    case False
    with "1.IH" to_string_nat_nonempty[of "n div 10"] show ?thesis
      by (subst to_string_nat.simps) simp
  qed
qed

lemma to_string_inj: "to_string i = to_string j \<Longrightarrow> i = j"
proof -
  assume e: "to_string i = to_string j"
  have neg: "\<And>a b. a < 0 \<Longrightarrow> \<not> b < 0 \<Longrightarrow> to_string a \<noteq> to_string b"
  proof
    fix a b :: int
    assume "a < 0" "\<not> b < 0" "to_string a = to_string b"
    then have "CHR ''-'' # to_string_nat (nat (- a)) = to_string_nat (nat b)"
      by (simp add: to_string_def)
    then have "hd (to_string_nat (nat b)) = CHR ''-''" by (metis list.sel(1))
    with to_string_nat_hd show False by blast
  qed
  show "i = j"
  proof (cases "i < 0")
    case True
    show ?thesis
    proof (cases "j < 0")
      case j: True
      with True e have "nat (- i) = nat (- j)"
        by (simp add: to_string_def to_string_nat_inj)
      with True j show ?thesis by simp
    next
      case False
      with True e neg show ?thesis by blast
    qed
  next
    case False
    show ?thesis
    proof (cases "j < 0")
      case True
      with False e neg[of j i] show ?thesis by simp
    next
      case j: False
      with False e have "nat i = nat j" by (simp add: to_string_def to_string_nat_inj)
      with False j show ?thesis by simp
    qed
  qed
qed

lemma archive_eq_iff [simp]: "archive name i = archive name j \<longleftrightarrow> i = j"
  by (auto simp: archive_def dest: to_string_inj)

lemma archive_not_name [simp]: "archive name i \<noteq> name" "name \<noteq> archive name i"
  by (simp_all add: archive_def)

lemma to_string_1: "to_string 1 = ''1''"
  by code_simp

lemma archive_1: "name @ ''.1'' = archive name 1"
  by (simp add: archive_def to_string_1)

subsection \<open>The loop that shifts the archives\<close>

lemma shift_archives_0: "i \<le> 0 \<Longrightarrow> shift_archives name i f = (Returns (), f)"
  by (subst shift_archives.simps) simp

lemma shift_archives_step:
  "0 < i \<Longrightarrow>
   shift_archives name i f =
     shift_archives name (i - 1)
       (case files f (archive name i) of
          None \<Rightarrow> f
        | Some c \<Rightarrow> f\<lparr>files := (files f)(archive name i := None, archive name (i + 1) \<mapsto> c)\<rparr>)"
proof -
  assume i: "0 < i"
  have n: "archive name i \<noteq> archive name (i + 1)" by simp
  show ?thesis
    using i n unfolding archive_def
    by (subst shift_archives.simps)
       (simp add: fs_exists_def fs_rename_def Let_def split: option.splits)
qed

lemma shift_archives_spec:
  "fst (shift_archives name (int k) f) = Returns ()
   \<and> denied (snd (shift_archives name (int k) f)) = denied f
   \<and> (\<forall>p. (\<forall>i. 1 \<le> i \<and> i \<le> int k + 1 \<longrightarrow> p \<noteq> archive name i)
          \<longrightarrow> files (snd (shift_archives name (int k) f)) p = files f p)
   \<and> (\<forall>i. 1 \<le> i \<and> i \<le> int k \<and> files f (archive name i) \<noteq> None
          \<longrightarrow> files (snd (shift_archives name (int k) f)) (archive name (i + 1))
              = files f (archive name i))"
proof (induction k arbitrary: f)
  case 0
  show ?case by (auto simp: shift_archives_0)
next
  case (Suc k)
  define f1 where "f1 = (case files f (archive name (int (Suc k))) of
          None \<Rightarrow> f
        | Some c \<Rightarrow> f\<lparr>files := (files f)(archive name (int (Suc k)) := None,
                                         archive name (int (Suc k) + 1) \<mapsto> c)\<rparr>)"
  have s: "shift_archives name (int (Suc k)) f = shift_archives name (int k) f1"
    using shift_archives_step[of "int (Suc k)" name f] by (simp add: f1_def)
  have d1: "denied f1 = denied f" by (simp add: f1_def split: option.splits)
  have o1: "\<And>p. p \<noteq> archive name (int k + 1) \<Longrightarrow> p \<noteq> archive name (int k + 2)
      \<Longrightarrow> files f1 p = files f p"
    by (simp add: f1_def add.commute split: option.splits)
  have m1: "files f (archive name (int k + 1)) \<noteq> None
      \<Longrightarrow> files f1 (archive name (int k + 2)) = files f (archive name (int k + 1))"
    by (auto simp: f1_def add.commute split: option.splits)
  note ih = Suc.IH[of f1]
  let ?r = "snd (shift_archives name (int k) f1)"
  have frame: "\<And>p. (\<forall>i. 1 \<le> i \<and> i \<le> int k + 1 \<longrightarrow> p \<noteq> archive name i) \<Longrightarrow> files ?r p = files f1 p"
    using ih by blast
  have move: "\<And>i. 1 \<le> i \<Longrightarrow> i \<le> int k \<Longrightarrow> files f1 (archive name i) \<noteq> None
      \<Longrightarrow> files ?r (archive name (i + 1)) = files f1 (archive name i)"
    using ih by blast
  show ?case unfolding s
  proof (intro conjI allI impI)
    show "fst (shift_archives name (int k) f1) = Returns ()" using ih by blast
    show "denied ?r = denied f" using ih d1 by simp
  next
    fix p assume a: "\<forall>i. 1 \<le> i \<and> i \<le> int (Suc k) + 1 \<longrightarrow> p \<noteq> archive name i"
    then have "p \<noteq> archive name (int k + 1)" "p \<noteq> archive name (int k + 2)" by auto
    then have "files f1 p = files f p" by (rule o1)
    moreover have "files ?r p = files f1 p" using a by (intro frame) auto
    ultimately show "files ?r p = files f p" by simp
  next
    fix i assume a: "1 \<le> i \<and> i \<le> int (Suc k) \<and> files f (archive name i) \<noteq> None"
    show "files ?r (archive name (i + 1)) = files f (archive name i)"
    proof (cases "i = int k + 1")
      case True
      have "files ?r (archive name (int k + 2)) = files f1 (archive name (int k + 2))"
        by (intro frame) auto
      with True a m1 show ?thesis by (simp add: add.commute add.left_commute)
    next
      case False
      with a have le: "1 \<le> i" "i \<le> int k" by auto
      then have "files f1 (archive name i) = files f (archive name i)"
        by (intro o1) auto
      with move[OF le] a show ?thesis by simp
    qed
  qed
qed

subsection \<open>Size rotation\<close>

lemma shift_archives_int:
  "fst (shift_archives name n f) = Returns ()
   \<and> denied (snd (shift_archives name n f)) = denied f
   \<and> (\<forall>p. (\<forall>i. 1 \<le> i \<and> i \<le> n + 1 \<longrightarrow> p \<noteq> archive name i)
          \<longrightarrow> files (snd (shift_archives name n f)) p = files f p)
   \<and> (\<forall>i. 1 \<le> i \<and> i \<le> n \<and> files f (archive name i) \<noteq> None
          \<longrightarrow> files (snd (shift_archives name n f)) (archive name (i + 1))
              = files f (archive name i))"
proof (cases "0 \<le> n")
  case True
  then have "int (nat n) = n" by simp
  with shift_archives_spec[of name "nat n" f] show ?thesis by simp
next
  case False
  then show ?thesis by (auto simp: shift_archives_0)
qed

lemma sizeRotation_rotates:
  assumes s: "stream (heap st h) = OFStream (fileName (heap st h)) buf"
    and c: "files (fs st) (fileName (heap st h)) = Some c"
    and big: "unat (maxSize (heap st h)) < length c"
    and ok: "fileName (heap st h) \<noteq> []" "fileName (heap st h) \<notin> denied (fs st)"
  shows "fst (sizeRotation h e st) = Returns ()"
    and "files (fs (snd (sizeRotation h e st))) (fileName (heap st h)) = Some []"
    and "files (fs (snd (sizeRotation h e st))) (archive (fileName (heap st h)) 1) = Some (c @ buf)"
    and "\<forall>i. 1 \<le> i \<and> i \<le> int (unat (maxNumFiles (heap st h))) - 2
              \<and> files (fs st) (archive (fileName (heap st h)) i) \<noteq> None
          \<longrightarrow> files (fs (snd (sizeRotation h e st))) (archive (fileName (heap st h)) (i + 1))
              = files (fs st) (archive (fileName (heap st h)) i)"
    and "\<forall>p. p \<noteq> fileName (heap st h) \<and> p \<noteq> archive (fileName (heap st h)) 1
              \<and> (\<forall>i. 1 \<le> i \<and> i \<le> int (unat (maxNumFiles (heap st h))) - 1
                     \<longrightarrow> p \<noteq> archive (fileName (heap st h)) i)
          \<longrightarrow> files (fs (snd (sizeRotation h e st))) p = files (fs st) p"
    and "heap (snd (sizeRotation h e st))
          = (heap st)(h := (heap st h)\<lparr>stream := OFStream (fileName (heap st h)) [],
                                       creationDate := now_date e\<rparr>)"
    and "denied (fs (snd (sizeRotation h e st))) = denied (fs st)"
    and "(snd (sizeRotation h e st))\<lparr>heap := heap st, fs := fs st\<rparr> = st"
proof -
  let ?name = "fileName (heap st h)"
  let ?n = "int (unat (maxNumFiles (heap st h))) - 2"
  define st1 where "st1 = set_sink h (\<lambda>s. s\<lparr>stream := Closed\<rparr>) (stream_flush h (stream_flush h st))"
  have cl: "stream_close h (stream_flush h st) = (Returns (), st1)"
    using s by (simp add: stream_close_def st1_def stream_flush_def set_sink_def is_ofstream_def)
  have f1: "files (fs st1) = (files (fs st))(?name \<mapsto> c @ buf)"
    using s c by (simp add: st1_def stream_flush_def set_sink_def)
  have d1: "denied (fs st1) = denied (fs st)"
    using s c by (simp add: st1_def stream_flush_def set_sink_def)
  have h1: "heap st1 = (heap st)(h := (heap st h)\<lparr>stream := Closed\<rparr>)"
    using s c by (simp add: st1_def stream_flush_def set_sink_def)
  have r1: "st1\<lparr>heap := heap st, fs := fs st\<rparr> = st"
    using s c by (simp add: st1_def stream_flush_def set_sink_def)
  have n1: "fileName (heap st1 h) = ?name" "maxNumFiles (heap st1 h) = maxNumFiles (heap st h)"
    by (simp_all add: h1)
  define f2 where "f2 = snd (shift_archives ?name ?n (fs st1))"
  note sh = shift_archives_int[of ?name ?n "fs st1", folded f2_def]
  have sh_eq: "shift_archives ?name ?n (fs st1) = (Returns (), f2)"
    using sh by (metis f2_def prod.collapse)
  have f2n: "files f2 ?name = Some (c @ buf)"
    using sh f1 by simp
  define f3 where "f3 = f2\<lparr>files := (files f2)(?name := None, archive ?name 1 \<mapsto> c @ buf)\<rparr>"
  have rn: "fs_rename f2 ?name (?name @ ''.1'') = Inr f3"
    using f2n by (simp add: fs_rename_def f3_def archive_1)
  have d3: "denied f3 = denied (fs st)" using sh d1 by (simp add: f3_def)
  define f4 where "f4 = f3\<lparr>files := (files f3)(?name \<mapsto> [])\<rparr>"
  have op: "openLogFile ?name f3 = (Returns (OFStream ?name []), f4)"
    using ok d3 by (simp add: openLogFile_ok f4_def f3_def)
  define st' where "st' = set_sink h (\<lambda>s. s\<lparr>stream := OFStream ?name [], creationDate := now_date e\<rparr>)
                           (st1\<lparr>fs := f4\<rparr>)"
  have res: "sizeRotation h e st = (Returns (), st')"
    using c big
    by (simp add: sizeRotation_def fs_file_size_def Let_def cl n1 sh_eq[simplified] rn op st'_def)
  show "fst (sizeRotation h e st) = Returns ()" by (simp add: res)
  have fs': "fs st' = f4" by (simp add: st'_def set_sink_def)
  show "files (fs (snd (sizeRotation h e st))) ?name = Some []"
    by (simp add: res fs' f4_def)
  show "files (fs (snd (sizeRotation h e st))) (archive ?name 1) = Some (c @ buf)"
    by (simp add: res fs' f4_def f3_def)
  show "\<forall>i. 1 \<le> i \<and> i \<le> ?n \<and> files (fs st) (archive ?name i) \<noteq> None
          \<longrightarrow> files (fs (snd (sizeRotation h e st))) (archive ?name (i + 1))
              = files (fs st) (archive ?name i)"
  proof (intro allI impI)
    fix i assume a: "1 \<le> i \<and> i \<le> ?n \<and> files (fs st) (archive ?name i) \<noteq> None"
    then have "files (fs st1) (archive ?name i) = files (fs st) (archive ?name i)"
      by (simp add: f1)
    with a sh have "files f2 (archive ?name (i + 1)) = files (fs st) (archive ?name i)"
      by auto
    with a show "files (fs (snd (sizeRotation h e st))) (archive ?name (i + 1))
              = files (fs st) (archive ?name i)"
      by (simp add: res fs' f4_def f3_def)
  qed
  show "\<forall>p. p \<noteq> ?name \<and> p \<noteq> archive ?name 1
              \<and> (\<forall>i. 1 \<le> i \<and> i \<le> int (unat (maxNumFiles (heap st h))) - 1 \<longrightarrow> p \<noteq> archive ?name i)
          \<longrightarrow> files (fs (snd (sizeRotation h e st))) p = files (fs st) p"
  proof (intro allI impI)
    fix p assume a: "p \<noteq> ?name \<and> p \<noteq> archive ?name 1
              \<and> (\<forall>i. 1 \<le> i \<and> i \<le> int (unat (maxNumFiles (heap st h))) - 1 \<longrightarrow> p \<noteq> archive ?name i)"
    then have "\<forall>i. 1 \<le> i \<and> i \<le> ?n + 1 \<longrightarrow> p \<noteq> archive ?name i" by simp
    with sh have "files f2 p = files (fs st1) p" by blast
    with a show "files (fs (snd (sizeRotation h e st))) p = files (fs st) p"
      by (simp add: res fs' f4_def f3_def f1)
  qed
  show "heap (snd (sizeRotation h e st))
          = (heap st)(h := (heap st h)\<lparr>stream := OFStream ?name [], creationDate := now_date e\<rparr>)"
    by (simp add: res st'_def set_sink_def h1)
  show "denied (fs (snd (sizeRotation h e st))) = denied (fs st)"
    by (simp add: res fs' f4_def d3)
  show "(snd (sizeRotation h e st))\<lparr>heap := heap st, fs := fs st\<rparr> = st"
    using r1 by (simp add: res st'_def set_sink_def)
qed


lemma write_tail:
  assumes s: "stream (heap st2 h) = OFStream p buf2"
    and c: "files (fs st2) p = Some c2"
  shows "set_sink h (\<lambda>s. s\<lparr>lsm := False\<rparr>)
           (stream_put h line k (stream_flush h (stream_put h nl 0 st2)))
         = st2\<lparr>heap := (heap st2)(h := (heap st2 h)\<lparr>stream := OFStream p (drop k line),
                                                      lsm := False\<rparr>),
               fs := (fs st2)\<lparr>files := (files (fs st2))(p \<mapsto> c2 @ buf2 @ nl @ take k line)\<rparr>\<rparr>"
  using s c by (simp add: stream_put_def stream_flush_def set_sink_def)

lemma write_rotates:
  assumes hd: "HEADERS level = Some header"
    and h: "sinks st level = h"
    and free: "\<not> lsm (heap st h)"
    and lim: "maxSize (heap st h) \<noteq> 0"
    and name: "fileName (heap st h) = name"
    and s: "stream (heap st h) = OFStream name buf"
    and c: "files (fs st) name = Some c"
    and big: "unat (maxSize (heap st h)) < length c"
    and ok: "name \<noteq> []" "name \<notin> denied (fs st)"
    and st': "st' = snd (Logger_write level trace e st)"
  shows "fst (Logger_write level trace e st) = Returns ()"
    and "files (fs st') (archive name 1) = Some (c @ buf)"
    and "\<forall>i. 1 \<le> i \<and> i \<le> int (unat (maxNumFiles (heap st h))) - 2
              \<and> files (fs st) (archive name i) \<noteq> None
          \<longrightarrow> files (fs st') (archive name (i + 1)) = files (fs st) (archive name i)"
    and "files (fs st') name = Some (nl @ take (spill e) (stamp e @ header @ trace))"
    and "stream (heap st' h) = OFStream name (drop (spill e) (stamp e @ header @ trace))"
    and "creationDate (heap st' h) = now_date e"
    and "\<forall>p. p \<noteq> name \<and> p \<noteq> archive name 1
              \<and> (\<forall>i. 1 \<le> i \<and> i \<le> int (unat (maxNumFiles (heap st h))) - 1
                     \<longrightarrow> p \<noteq> archive name i)
          \<longrightarrow> files (fs st') p = files (fs st) p"
    and "\<not> lsm (heap st' h)"
proof -
  let ?N = "int (unat (maxNumFiles (heap st h)))"
  define stl where "stl = set_sink h (\<lambda>s. s\<lparr>lsm := True\<rparr>) st"
  have l: "fileName (heap stl h) = name" "stream (heap stl h) = OFStream (fileName (heap stl h)) buf"
    "files (fs stl) (fileName (heap stl h)) = Some c"
    "unat (maxSize (heap stl h)) < length c"
    "fileName (heap stl h) \<noteq> []" "fileName (heap stl h) \<notin> denied (fs stl)"
    "maxNumFiles (heap stl h) = maxNumFiles (heap st h)" "fs stl = fs st"
    using name s c big ok by (simp_all add: stl_def set_sink_def)
  define st2 where "st2 = snd (sizeRotation h e stl)"
  note rot = sizeRotation_rotates[OF l(2,3,4,5,6), of e, folded st2_def, unfolded l(1,7,8)]
  have r: "sizeRotation h e stl = (Returns (), st2)"
    using rot(1) by (metis st2_def prod.collapse)
  have s2: "stream (heap st2 h) = OFStream name []" "creationDate (heap st2 h) = now_date e"
    by (simp_all add: rot(6))
  have w: "Logger_write level trace e st
      = (Returns (), set_sink h (\<lambda>s. s\<lparr>lsm := False\<rparr>)
           (stream_put h (stamp e @ header @ trace) (spill e)
              (stream_flush h (stream_put h nl 0 st2))))"
    using hd h free lim by (simp add: Logger_write_def Let_def stl_def[symmetric] r)
  note t = write_tail[OF s2(1) rot(2), of "stamp e @ header @ trace" "spill e"]
  have st'_eq: "st' = st2\<lparr>heap := (heap st2)(h := (heap st2 h)\<lparr>stream :=
                     OFStream name (drop (spill e) (stamp e @ header @ trace)), lsm := False\<rparr>),
               fs := (fs st2)\<lparr>files := (files (fs st2))(name \<mapsto>
                     [] @ [] @ nl @ take (spill e) (stamp e @ header @ trace))\<rparr>\<rparr>"
    unfolding st' w using t by simp
  have fo: "\<And>p. p \<noteq> name \<Longrightarrow> files (fs st') p = files (fs st2) p"
    by (simp add: st'_eq)
  show "fst (Logger_write level trace e st) = Returns ()" by (simp add: w)
  show "files (fs st') (archive name 1) = Some (c @ buf)" using rot(3) by (simp add: fo)
  show "files (fs st') name = Some (nl @ take (spill e) (stamp e @ header @ trace))" by (simp add: st'_eq)
  show "stream (heap st' h) = OFStream name (drop (spill e) (stamp e @ header @ trace))" by (simp add: st'_eq)
  show "creationDate (heap st' h) = now_date e" using s2 by (simp add: st'_eq)
  show "\<not> lsm (heap st' h)" by (simp add: st'_eq)
  show "\<forall>i. 1 \<le> i \<and> i \<le> ?N - 2 \<and> files (fs st) (archive name i) \<noteq> None
          \<longrightarrow> files (fs st') (archive name (i + 1)) = files (fs st) (archive name i)"
    using rot(4) by (simp add: fo)
  show "\<forall>p. p \<noteq> name \<and> p \<noteq> archive name 1
              \<and> (\<forall>i. 1 \<le> i \<and> i \<le> ?N - 1 \<longrightarrow> p \<noteq> archive name i)
          \<longrightarrow> files (fs st') p = files (fs st) p"
    using rot(5) by (simp add: fo)
qed

text \<open>
  What a write does to a sink with a size limit whose file has grown beyond it, the
  mutex being free, the stream open on the file and the system allowing the file to be
  opened again. The write returns, and the size rotation in it has flushed and closed
  the stream, renamed every archive \<open>i\<close> from \<open>maxNumFiles - 2\<close> down to 1 that was there
  to \<open>i + 1\<close>, renamed the file, with the bytes the stream still held, to archive 1,
  opened the file anew (it now holds the newline of this write and what the stream
  wrote out of the line by itself, the rest of the line waits in the stream) and set
  the creation date to the date of the clock. For a sink that stores a \<open>maxNumFiles\<close>
  of at least 2, as every sink does that was built under \<open>MAX_SIZE\<close> with a limit: when
  no archive with a number above \<open>maxNumFiles - 1\<close> was there before such a write, none
  is there after it.
\<close>

lemma rotation_within_limit:
  assumes hd: "HEADERS level = Some header"
    and h: "sinks st level = h"
    and free: "\<not> lsm (heap st h)"
    and lim: "maxSize (heap st h) \<noteq> 0"
    and name: "fileName (heap st h) = name"
    and s: "stream (heap st h) = OFStream name buf"
    and c: "files (fs st) name = Some c"
    and big: "unat (maxSize (heap st h)) < length c"
    and ok: "name \<noteq> []" "name \<notin> denied (fs st)"
    and st': "st' = snd (Logger_write level trace e st)"
  shows "fst (Logger_write level trace e st) = Returns ()
     \<and> files (fs st') (archive name 1) = Some (c @ buf)
     \<and> (\<forall>i. 1 \<le> i \<and> i \<le> int (unat (maxNumFiles (heap st h))) - 2
              \<and> files (fs st) (archive name i) \<noteq> None
          \<longrightarrow> files (fs st') (archive name (i + 1)) = files (fs st) (archive name i))
     \<and> files (fs st') name = Some (nl @ take (spill e) (stamp e @ header @ trace))
     \<and> stream (heap st' h) = OFStream name (drop (spill e) (stamp e @ header @ trace))
     \<and> creationDate (heap st' h) = now_date e
     \<and> (2 \<le> maxNumFiles (heap st h)
          \<and> (\<forall>i. 1 \<le> i \<and> files (fs st) (archive name i) \<noteq> None
                  \<longrightarrow> i \<le> int (unat (maxNumFiles (heap st h))) - 1)
         \<longrightarrow> (\<forall>i. 1 \<le> i \<and> files (fs st') (archive name i) \<noteq> None
                  \<longrightarrow> i \<le> int (unat (maxNumFiles (heap st h))) - 1))"
proof -
  let ?N = "int (unat (maxNumFiles (heap st h)))"
  note r = write_rotates[OF assms]
  show ?thesis
  proof (intro conjI allI impI)
    show "fst (Logger_write level trace e st) = Returns ()" by (rule r(1))
    show "files (fs st') (archive name 1) = Some (c @ buf)" by (rule r(2))
    show "files (fs st') name = Some (nl @ take (spill e) (stamp e @ header @ trace))" by (rule r(4))
    show "stream (heap st' h) = OFStream name (drop (spill e) (stamp e @ header @ trace))" by (rule r(5))
    show "creationDate (heap st' h) = now_date e" by (rule r(6))
  next
    fix i assume "1 \<le> i \<and> i \<le> ?N - 2 \<and> files (fs st) (archive name i) \<noteq> None"
    with r(3) show "files (fs st') (archive name (i + 1)) = files (fs st) (archive name i)"
      by blast
  next
    fix i
    assume a: "2 \<le> maxNumFiles (heap st h)
          \<and> (\<forall>i. 1 \<le> i \<and> files (fs st) (archive name i) \<noteq> None \<longrightarrow> i \<le> ?N - 1)"
      and b: "1 \<le> i \<and> files (fs st') (archive name i) \<noteq> None"
    from a have "unat (2::8 word) \<le> unat (maxNumFiles (heap st h))"
      by (simp only: word_le_nat_alt)
    moreover have "unat (2::8 word) = 2" by simp
    ultimately have n2: "2 \<le> ?N" by linarith
    show "i \<le> ?N - 1"
    proof (rule ccontr)
      assume "\<not> i \<le> ?N - 1"
      then have big: "?N \<le> i" by simp
      with n2 have "archive name i \<noteq> name \<and> archive name i \<noteq> archive name 1
              \<and> (\<forall>j. 1 \<le> j \<and> j \<le> ?N - 1 \<longrightarrow> archive name i \<noteq> archive name j)"
        by auto
      with r(7) have "files (fs st') (archive name i) = files (fs st) (archive name i)" by blast
      with b have "files (fs st) (archive name i) \<noteq> None" by simp
      with a b have "i \<le> ?N - 1" by blast
      with \<open>\<not> i \<le> ?N - 1\<close> show False by simp
    qed
  qed
qed

text \<open>With the three archives of an earlier run and a limit of four files: the write
  turns archive 2 into archive 3 (the old archive 3 is lost), archive 1 into archive 2
  and the file into archive 1, and no archive with a number from 4 on appears.\<close>

lemma st_rot_facts:
  "sinks st_rot INFO = 2" "\<not> lsm (heap st_rot 2)" "maxSize (heap st_rot 2) \<noteq> 0"
  "fileName (heap st_rot 2) = ''a.log''" "stream (heap st_rot 2) = OFStream ''a.log'' []"
  "unat (maxSize (heap st_rot 2)) < length ''0123456789''"
  "''a.log'' \<notin> denied (fs st_rot)" "maxNumFiles (heap st_rot 2) = 4"
  by code_simp+

lemma st_rot_files:
  "files (fs st_rot) = [''a.log'' \<mapsto> ''0123456789'', ''a.log.1'' \<mapsto> ''one'', ''a.log.2'' \<mapsto> ''two'',
               ''a.log.3'' \<mapsto> ''three'']"
  by (simp add: st_rot_def setLogFile_def init_state_def LogSink_stream_def levels_def
      new_LogSink_def LogSink_file_def openLogFile_def fs_full_def Let_def fun_upd_twist)

lemma a_log_archives:
  "''a.log.1'' = archive ''a.log'' 1" "''a.log.2'' = archive ''a.log'' 2"
  "''a.log.3'' = archive ''a.log'' 3"
  by code_simp+

lemma rotation_within_limit_example:
  "fst (Logger_write INFO ''x'' env0 st_rot) = Returns ()
   \<and> files (fs (snd (Logger_write INFO ''x'' env0 st_rot))) ''a.log.1'' = Some ''0123456789''
   \<and> files (fs (snd (Logger_write INFO ''x'' env0 st_rot))) ''a.log.2'' = Some ''one''
   \<and> files (fs (snd (Logger_write INFO ''x'' env0 st_rot))) ''a.log.3'' = Some ''two''
   \<and> files (fs (snd (Logger_write INFO ''x'' env0 st_rot))) ''a.log'' = Some nl
   \<and> creationDate (heap (snd (Logger_write INFO ''x'' env0 st_rot)) 2) = ''20240102''
   \<and> \<not> (\<exists>i. 4 \<le> i
            \<and> files (fs (snd (Logger_write INFO ''x'' env0 st_rot))) (archive ''a.log'' i) \<noteq> None)"
proof -
  let ?st' = "snd (Logger_write INFO ''x'' env0 st_rot)"
  have hd: "HEADERS INFO = Some ''INFO: ''" by (simp add: HEADERS_def)
  have c: "files (fs st_rot) ''a.log'' = Some ''0123456789''" by (simp add: st_rot_files)
  have ne: "''a.log'' \<noteq> []" by simp
  note t = rotation_within_limit[OF hd st_rot_facts(1,2,3,4,5) c st_rot_facts(6) ne
      st_rot_facts(7) refl, of "''x''" env0]
  have old: "files (fs st_rot) (archive ''a.log'' 1) = Some ''one''"
    "files (fs st_rot) (archive ''a.log'' 2) = Some ''two''"
    by (simp_all add: st_rot_files a_log_archives[symmetric])
  have bound: "\<forall>i. 1 \<le> i \<and> files (fs st_rot) (archive ''a.log'' i) \<noteq> None
      \<longrightarrow> i \<le> int (unat (maxNumFiles (heap st_rot 2))) - 1"
    by (auto simp: st_rot_files st_rot_facts(8) a_log_archives split: if_splits)
  have two: "2 \<le> maxNumFiles (heap st_rot 2)" by (simp add: st_rot_facts(8))
  from t have 1: "fst (Logger_write INFO ''x'' env0 st_rot) = Returns ()"
    and 2: "files (fs ?st') (archive ''a.log'' 1) = Some (''0123456789'' @ [])"
    and 3: "\<forall>i. 1 \<le> i \<and> i \<le> int (unat (maxNumFiles (heap st_rot 2))) - 2
              \<and> files (fs st_rot) (archive ''a.log'' i) \<noteq> None
          \<longrightarrow> files (fs ?st') (archive ''a.log'' (i + 1)) = files (fs st_rot) (archive ''a.log'' i)"
    and 4: "files (fs ?st') ''a.log'' = Some (nl @ take (spill env0) (stamp env0 @ ''INFO: '' @ ''x''))"
    and 5: "creationDate (heap ?st' 2) = now_date env0"
    and 6: "2 \<le> maxNumFiles (heap st_rot 2)
          \<and> (\<forall>i. 1 \<le> i \<and> files (fs st_rot) (archive ''a.log'' i) \<noteq> None
                  \<longrightarrow> i \<le> int (unat (maxNumFiles (heap st_rot 2))) - 1)
         \<longrightarrow> (\<forall>i. 1 \<le> i \<and> files (fs ?st') (archive ''a.log'' i) \<noteq> None
                  \<longrightarrow> i \<le> int (unat (maxNumFiles (heap st_rot 2))) - 1)"
    by blast+
  from 3[rule_format, of 1] 3[rule_format, of 2] old
  have 7: "files (fs ?st') (archive ''a.log'' (1 + 1)) = Some ''one''"
    "files (fs ?st') (archive ''a.log'' (2 + 1)) = Some ''two''"
    by (simp_all add: st_rot_facts(8))
  from 6 two bound have 8: "\<forall>i. 1 \<le> i \<and> files (fs ?st') (archive ''a.log'' i) \<noteq> None
                  \<longrightarrow> i \<le> int (unat (maxNumFiles (heap st_rot 2))) - 1" by blast
  have 9: "\<not> (\<exists>i. 4 \<le> i \<and> files (fs ?st') (archive ''a.log'' i) \<noteq> None)"
  proof
    assume "\<exists>i. 4 \<le> i \<and> files (fs ?st') (archive ''a.log'' i) \<noteq> None"
    then obtain i where i: "4 \<le> i" "files (fs ?st') (archive ''a.log'' i) \<noteq> None" by blast
    then have "1 \<le> i \<and> files (fs ?st') (archive ''a.log'' i) \<noteq> None" by simp
    with 8 have "i \<le> int (unat (maxNumFiles (heap st_rot 2))) - 1" by blast
    with i show False by (simp add: st_rot_facts(8))
  qed
  have sp: "spill env0 = 0" by (simp add: env0_def)
  from 1 2 4 5 7 9 show ?thesis
    by (simp add: a_log_archives sp) (simp add: env0_def)
qed

text \<open>
  Claim C1. The claim speaks of every file sink with a size limit, and the code breaks
  it at a sink built under the policy \<open>NONE\<close>, which the comment at the head of
  \<open>logger.h\<close> describes as "The log files does not rotate": the constructor stores the
  limit all the same and stores 0 as \<open>maxNumFiles\<close>. DEBUG is given \<open>a.log\<close>, a file of ten
  bytes, under \<open>NONE\<close> with a limit of one byte. Before the next line there is no
  archive; the call returns, and afterwards archive 1 exists, which is more than the
  \<open>maxNumFiles - 1\<close> archives the claim allows.
\<close>

theorem none_policy_sink_rotates:
  "maxSize (heap st_none_policy 2) \<noteq> 0
   \<and> fileName (heap st_none_policy 2) = ''a.log''
   \<and> sinks st_none_policy DEBUG = 2
   \<and> files (fs st_none_policy) (archive ''a.log'' 1) = None
   \<and> fst (call_debug ''z'' env0 st_none_policy) = Returns ()
   \<and> files (fs (snd (call_debug ''z'' env0 st_none_policy))) (archive ''a.log'' 1)
       = Some ''0123456789''
   \<and> maxNumFiles (heap (snd (call_debug ''z'' env0 st_none_policy)) 2) = 0
   \<and> \<not> (1 \<le> int (unat (maxNumFiles (heap (snd (call_debug ''z'' env0 st_none_policy)) 2))) - 1)"
proof -
  have 1: "maxSize (heap st_none_policy 2) \<noteq> 0" by code_simp
  have 2: "fileName (heap st_none_policy 2) = ''a.log''" by code_simp
  have 3: "sinks st_none_policy DEBUG = 2" by code_simp
  have 4: "files (fs st_none_policy) (archive ''a.log'' 1) = None" by code_simp
  have 5: "fst (call_debug ''z'' env0 st_none_policy) = Returns ()" by code_simp
  have 6: "files (fs (snd (call_debug ''z'' env0 st_none_policy))) (archive ''a.log'' 1)
       = Some ''0123456789''"
    by code_simp
  have 7: "maxNumFiles (heap (snd (call_debug ''z'' env0 st_none_policy)) 2) = 0" by code_simp
  from 1 2 3 4 5 6 show ?thesis unfolding 7 by simp
qed







subsection \<open>Daily rotation\<close>

lemma dated_not_name: "name @ ''.'' @ created \<noteq> name"
  by simp





subsection \<open>The write path\<close>

lemma seen_lsm [simp]: "seen h (set_sink h' (\<lambda>s. s\<lparr>lsm := b\<rparr>) st) = seen h st"
  by (simp add: seen_def set_sink_def split: ostream.splits)

lemma writable_lsm [simp]: "writable h (set_sink h' (\<lambda>s. s\<lparr>lsm := b\<rparr>) st) = writable h st"
  by (simp add: writable_def set_sink_def split: ostream.splits)











end
